theory Spec2Isabelle
  imports Complex_Main
begin

section \<open>PropertyGoogleMap: the Google Maps component\<close>

text \<open>
  The component keeps its state in React hooks (\<open>useState\<close>, \<open>useRef\<close>) and in the
  shared context \<open>usePropertyMap()\<close>. The model is a record of these values, and every
  handler and effect is a function from the state to the new state. Each handler is read
  with the state of the render that precedes it (React re-renders between two user
  events, so the closures of \<open>useCallback\<close> hold the current values).
  Presentation data (marker icons, layer styles, click listeners that only log) is not
  part of the state, and the two effects that draw the boundaries of the emirates and of
  the areas are not modelled.
\<close>

type_synonym layer_id = string
type_synonym feature = string
type_synonym js_error = string

text \<open>A marker of the Google map: \<open>property.id\<close>, \<open>property.lat\<close>, \<open>property.lng\<close>.\<close>

record gm_property =
  gp_id :: string
  gp_lat :: real
  gp_lng :: real

text \<open>
  \<open>mapRef.current.getBounds()\<close>: the two corners of the viewport, each with
  \<open>lat()\<close> and \<open>lng()\<close>.
\<close>

record lat_lng_bounds =
  getNorthEast :: "real \<times> real"
  getSouthWest :: "real \<times> real"

text \<open>The \<open>boundingBox\<close> object literal of \<open>loadGisLayers\<close>.\<close>

record bounding_box =
  bb_north :: real
  bb_east :: real
  bb_south :: real
  bb_west :: real

record gm_state =
  selectedProperty :: "gm_property option"
  selectedPropertyId :: "string option"
  mapLoaded :: bool
  showEmirates :: bool
  showAreas :: bool
  currentEmirate :: string
  enabledLayers :: "layer_id list"
  gisInitialized :: bool
  mapMode :: string
  mapRef :: "lat_lng_bounds option option"
  googleMapsServiceRef :: bool
  gisLayersRef :: "layer_id \<rightharpoonup> feature list"
  gisRequests :: "(layer_id \<times> bounding_box) list"
  console_error :: "(string \<times> js_error) list"

text \<open>
  \<open>mapRef\<close> is \<open>None\<close> while \<open>mapRef.current\<close> is null; \<open>Some None\<close> is a map whose
  \<open>getBounds()\<close> is still undefined. \<open>gisLayersRef\<close> holds, for each layer type, the
  \<open>google.maps.Data\<close> object that was put on the map with \<open>layer.setMap(mapRef.current)\<close>:
  an entry is made together with \<open>setMap(map)\<close> and deleted together with \<open>setMap(null)\<close>,
  so the overlays on the map are exactly the entries. \<open>gisRequests\<close> logs every call of
  \<open>getGisData(layerType, boundingBox)\<close>; \<open>console_error\<close> logs each
  \<open>console.error(message, error)\<close>.
\<close>

subsection \<open>handleToggleLayer\<close>

text \<open>
  \<open>prev.includes(layerId) ? prev.filter(id => id !== layerId) : [...prev, layerId]\<close>
\<close>

definition handleToggleLayer :: "layer_id list \<Rightarrow> layer_id \<Rightarrow> layer_id list" where
  "handleToggleLayer prev layerId =
     (if layerId \<in> set prev then filter (\<lambda>id. id \<noteq> layerId) prev else prev @ [layerId])"

subsection \<open>handleToggleEmirates, handleToggleAreas\<close>

definition handleToggleEmirates :: "bool \<Rightarrow> gm_state \<Rightarrow> gm_state" where
  "handleToggleEmirates show s =
     (let s1 = s\<lparr>showEmirates := show\<rparr> in
      if show then
        (if showAreas s then s1\<lparr>mapMode := ''hybrid''\<rparr> else s1\<lparr>mapMode := ''emirates''\<rparr>)
      else if showAreas s then s1\<lparr>mapMode := ''areas''\<rparr>
      else s1\<lparr>mapMode := ''properties''\<rparr>)"

definition handleToggleAreas :: "bool \<Rightarrow> gm_state \<Rightarrow> gm_state" where
  "handleToggleAreas show s =
     (let s1 = s\<lparr>showAreas := show\<rparr> in
      if show then
        (if showEmirates s then s1\<lparr>mapMode := ''hybrid''\<rparr> else s1\<lparr>mapMode := ''areas''\<rparr>)
      else if showEmirates s then s1\<lparr>mapMode := ''emirates''\<rparr>
      else s1\<lparr>mapMode := ''properties''\<rparr>)"

definition handleEmirateChange :: "string \<Rightarrow> gm_state \<Rightarrow> gm_state" where
  "handleEmirateChange emirate s = s\<lparr>currentEmirate := emirate\<rparr>"

subsection \<open>Marker onClick, InfoWindow onCloseClick\<close>

definition marker_onClick :: "gm_property \<Rightarrow> gm_state \<Rightarrow> gm_state" where
  "marker_onClick property s =
     s\<lparr>selectedProperty := Some property, selectedPropertyId := Some (gp_id property)\<rparr>"

definition infoWindow_onCloseClick :: "gm_state \<Rightarrow> gm_state" where
  "infoWindow_onCloseClick s = s\<lparr>selectedProperty := None, selectedPropertyId := None\<rparr>"

subsection \<open>The effect that loads the GIS layers\<close>

text \<open>
  The service call \<open>getGisData(layerType, boundingBox)\<close> is a parameter: it answers
  with the features (\<open>Inr\<close>) or rejects (\<open>Inl\<close>). The \<open>await\<close> is modelled as
  returning before the next event of the component.
\<close>

type_synonym gis_service = "layer_id \<Rightarrow> bounding_box \<Rightarrow> js_error + feature list"

definition layerTypes :: "layer_id list" where
  "layerTypes = [''parcels'', ''zoning'', ''schools'', ''hospitals'', ''metroStations'', ''busStops'']"

fun loadGisLayers_loop :: "gis_service \<Rightarrow> bounding_box \<Rightarrow> layer_id list \<Rightarrow> gm_state \<Rightarrow> gm_state" where
  "loadGisLayers_loop svc boundingBox [] s = s"
| "loadGisLayers_loop svc boundingBox (layerType # rest) s =
     (let s1 = s\<lparr>gisLayersRef := (gisLayersRef s)(layerType := None)\<rparr> in
      if layerType \<notin> set (enabledLayers s1) then loadGisLayers_loop svc boundingBox rest s1
      else
        (let s2 = s1\<lparr>gisRequests := gisRequests s1 @ [(layerType, boundingBox)]\<rparr> in
         case svc layerType boundingBox of
           Inr gisFeatures \<Rightarrow>
             loadGisLayers_loop svc boundingBox rest
               (s2\<lparr>gisLayersRef := (gisLayersRef s2)(layerType \<mapsto> gisFeatures)\<rparr>)
         | Inl error \<Rightarrow>
             loadGisLayers_loop svc boundingBox rest
               (s2\<lparr>console_error :=
                     console_error s2 @ [(''Error loading '' @ layerType @ '' layer:'', error)]\<rparr>)))"

definition loadGisLayers :: "gis_service \<Rightarrow> gm_state \<Rightarrow> gm_state" where
  "loadGisLayers svc s =
     (case mapRef s of
        None \<Rightarrow> s
      | Some None \<Rightarrow> s
      | Some (Some bounds) \<Rightarrow>
          loadGisLayers_loop svc
            \<lparr>bb_north = fst (getNorthEast bounds), bb_east = snd (getNorthEast bounds),
             bb_south = fst (getSouthWest bounds), bb_west = snd (getSouthWest bounds)\<rparr>
            layerTypes s)"

definition gisLayers_effect :: "gis_service \<Rightarrow> gm_state \<Rightarrow> gm_state" where
  "gisLayers_effect svc s =
     (if \<not> mapLoaded s \<or> mapRef s = None \<or> \<not> googleMapsServiceRef s \<or> \<not> gisInitialized s then s
      else if length (enabledLayers s) > 0 then loadGisLayers svc s
      else s)"

subsection \<open>Events of the component\<close>

text \<open>
  After an event has changed the state, React runs the effects whose dependencies
  changed: the GIS effect depends on \<open>[enabledLayers, mapLoaded, gisInitialized]\<close>.
  \<open>ScriptLoaded\<close> is \<open>isLoaded\<close> becoming true, when the first effect creates
  the service object and calls its \<open>initialize()\<close>.
  \<open>ServiceInitialized\<close> is the settling of \<open>googleMapsServiceRef.current.initialize()\<close>
  (\<open>Inr success\<close> resolves, \<open>Inl\<close> rejects). \<open>EmirateFeatureClick\<close> is the click
  listener of an emirate boundary: it calls \<open>setCurrentEmirate(name)\<close> and then
  \<open>if (!showAreas) setShowAreas(true)\<close>, where \<open>showAreas\<close> is the value the
  listener captured when the effect that draws the emirates created it. That effect is
  not modelled, so the captured value comes with the event.
\<close>

datatype gm_event =
    ScriptLoaded
  | MapLoad "lat_lng_bounds option"
  | MapUnmount
  | ServiceInitialized "js_error + bool"
  | MarkerClick gm_property
  | InfoWindowClose
  | ToggleLayer layer_id
  | ToggleEmirates bool
  | ToggleAreas bool
  | EmirateChange string
  | EmirateFeatureClick string bool

fun gm_step :: "gis_service \<Rightarrow> gm_event \<Rightarrow> gm_state \<Rightarrow> gm_state" where
  "gm_step svc ScriptLoaded s = s\<lparr>googleMapsServiceRef := True\<rparr>"
| "gm_step svc (MapLoad m) s =
     (let s1 = s\<lparr>mapRef := Some m, mapLoaded := True\<rparr> in
      if mapLoaded s then s1 else gisLayers_effect svc s1)"
| "gm_step svc MapUnmount s =
     (let s1 = s\<lparr>mapRef := None, mapLoaded := False\<rparr> in
      if mapLoaded s then gisLayers_effect svc s1 else s1)"
| "gm_step svc (ServiceInitialized r) s =
     (if \<not> googleMapsServiceRef s then s else
      let success = (case r of Inr b \<Rightarrow> b | Inl error \<Rightarrow> False);
          s1 = (case r of
                  Inr b \<Rightarrow> s
                | Inl error \<Rightarrow>
                    s\<lparr>console_error :=
                        console_error s @ [(''Failed to initialize Google Maps API service:'', error)]\<rparr>);
          s2 = s1\<lparr>gisInitialized := success\<rparr> in
      if gisInitialized s = success then s2 else gisLayers_effect svc s2)"
| "gm_step svc (MarkerClick property) s = marker_onClick property s"
| "gm_step svc InfoWindowClose s = infoWindow_onCloseClick s"
| "gm_step svc (ToggleLayer layerId) s =
     gisLayers_effect svc (s\<lparr>enabledLayers := handleToggleLayer (enabledLayers s) layerId\<rparr>)"
| "gm_step svc (ToggleEmirates show) s = handleToggleEmirates show s"
| "gm_step svc (ToggleAreas show) s = handleToggleAreas show s"
| "gm_step svc (EmirateChange emirate) s = handleEmirateChange emirate s"
| "gm_step svc (EmirateFeatureClick name captured_showAreas) s =
     (let s1 = s\<lparr>currentEmirate := name\<rparr> in
      if \<not> captured_showAreas then s1\<lparr>showAreas := True\<rparr> else s1)"

text \<open>A run of the component: each event comes with the answers of the service at that time.\<close>

fun gm_run :: "(gis_service \<times> gm_event) list \<Rightarrow> gm_state \<Rightarrow> gm_state" where
  "gm_run [] s = s"
| "gm_run ((svc, ev) # evs) s = gm_run evs (gm_step svc ev s)"

text \<open>
  The state of the first render: the \<open>useState\<close> and \<open>useRef\<close> initial values. The two
  context values (\<open>selectedPropertyId\<close>, \<open>mapMode\<close>) are given by the provider.
\<close>

definition gm_init :: "string option \<Rightarrow> string \<Rightarrow> gm_state" where
  "gm_init ctxSelectedId ctxMapMode =
     \<lparr>selectedProperty = None, selectedPropertyId = ctxSelectedId, mapLoaded = False,
      showEmirates = False, showAreas = False, currentEmirate = ''Dubai'',
      enabledLayers = [], gisInitialized = False, mapMode = ctxMapMode,
      mapRef = None, googleMapsServiceRef = False, gisLayersRef = Map.empty,
      gisRequests = [], console_error = []\<rparr>"


section \<open>PropertyMap: the Leaflet component\<close>

text \<open>
  The model has the state of the component that its effects read and write, the effects
  that fetch data or write \<open>mapBounds\<close>, and the run-time they need: a clock, the
  timers of \<open>setTimeout\<close> and the promises of the service calls. The centre and the
  zoom of the map, the map editor and the styling of the features are not modelled.
  \<open>enabledGisLayers\<close> is always an array (the default of the prop is
  \<open>['parcels']\<close>), and ids are strings.
\<close>

subsection \<open>JavaScript values\<close>

text \<open>
  A JavaScript number that is not NaN: a finite value or one of the two infinities.
  \<open>Math.max\<close> and \<open>Math.min\<close> on such numbers are the maximum and minimum of
  this linear order.
\<close>

datatype jsnum = NegInfinity | Finite real | PosInfinity

instantiation jsnum :: linorder
begin

fun less_eq_jsnum :: "jsnum \<Rightarrow> jsnum \<Rightarrow> bool" where
  "less_eq_jsnum NegInfinity y = True"
| "less_eq_jsnum (Finite x) NegInfinity = False"
| "less_eq_jsnum (Finite x) (Finite y) = (x \<le> y)"
| "less_eq_jsnum (Finite x) PosInfinity = True"
| "less_eq_jsnum PosInfinity PosInfinity = True"
| "less_eq_jsnum PosInfinity y = False"

definition less_jsnum :: "jsnum \<Rightarrow> jsnum \<Rightarrow> bool" where
  "less_jsnum a b \<longleftrightarrow> a \<le> b \<and> \<not> b \<le> a"

instance
proof
  fix x y z :: jsnum
  show "(x < y) = (x \<le> y \<and> \<not> y \<le> x)" by (simp add: less_jsnum_def)
  show "x \<le> x" by (cases x) simp_all
  show "x \<le> y \<Longrightarrow> y \<le> z \<Longrightarrow> x \<le> z" by (cases x; cases y; cases z) simp_all
  show "x \<le> y \<Longrightarrow> y \<le> x \<Longrightarrow> x = y" by (cases x; cases y) simp_all
  show "x \<le> y \<or> y \<le> x" by (cases x; cases y) auto
qed

end

definition Math_max :: "jsnum \<Rightarrow> jsnum \<Rightarrow> jsnum" where
  "Math_max a b = (if a \<le> b then b else a)"

definition Math_min :: "jsnum \<Rightarrow> jsnum \<Rightarrow> jsnum" where
  "Math_min a b = (if a \<le> b then a else b)"

datatype jsval = JNumber jsnum | JNaN | JUndefined | JNull | JString string

text \<open>\<open>typeof v === 'number' && !isNaN(v)\<close>, with the number when the test passes.\<close>

fun number_not_NaN :: "jsval \<Rightarrow> jsnum option" where
  "number_not_NaN (JNumber n) = Some n"
| "number_not_NaN JNaN = None"
| "number_not_NaN JUndefined = None"
| "number_not_NaN JNull = None"
| "number_not_NaN (JString s) = None"

record location =
  lat :: jsval
  lng :: jsval

text \<open>
  An element of \<open>propertyMarkers.properties\<close>. \<open>p_id\<close> is \<open>None\<close> when
  \<open>property.id\<close> is undefined, \<open>p_location\<close> is \<open>None\<close> when the element or its
  \<open>location\<close> is null or undefined, so that \<open>property?.location?.lat\<close> is undefined.
\<close>

record pm_property =
  p_id :: "string option"
  p_location :: "location option"

definition property_lat :: "pm_property \<Rightarrow> jsval" where
  "property_lat property = (case p_location property of None \<Rightarrow> JUndefined | Some l \<Rightarrow> lat l)"

definition property_lng :: "pm_property \<Rightarrow> jsval" where
  "property_lng property = (case p_location property of None \<Rightarrow> JUndefined | Some l \<Rightarrow> lng l)"

text \<open>\<open>mapBounds\<close> is \<open>[[south, west], [north, east]]\<close>.\<close>

type_synonym map_bounds = "(jsnum \<times> jsnum) \<times> (jsnum \<times> jsnum)"

text \<open>The object literal \<open>{south, west, north, east}\<close> built from \<open>mapBounds\<close>.\<close>

record bounds_object =
  south :: jsnum
  west :: jsnum
  north :: jsnum
  east :: jsnum

definition bounds_of :: "map_bounds \<Rightarrow> bounds_object" where
  "bounds_of mapBounds =
     \<lparr>south = fst (fst mapBounds), west = snd (fst mapBounds),
      north = fst (snd mapBounds), east = snd (snd mapBounds)\<rparr>"

text \<open>
  \<open>JSON.stringify(bounds)\<close>: the text \<open>{"south":..,"west":..,"north":..,"east":..}\<close>,
  kept as the four values it holds. \<open>JSON.stringify\<close> writes a finite number as
  that number and an infinity as \<open>null\<close>.
\<close>

datatype json_value = JsonNumber real | JsonNull

fun JSON_stringify_number :: "jsnum \<Rightarrow> json_value" where
  "JSON_stringify_number (Finite x) = JsonNumber x"
| "JSON_stringify_number NegInfinity = JsonNull"
| "JSON_stringify_number PosInfinity = JsonNull"

record json_text =
  json_south :: json_value
  json_west :: json_value
  json_north :: json_value
  json_east :: json_value

definition JSON_stringify :: "bounds_object \<Rightarrow> json_text" where
  "JSON_stringify bounds =
     \<lparr>json_south = JSON_stringify_number (south bounds),
      json_west = JSON_stringify_number (west bounds),
      json_north = JSON_stringify_number (north bounds),
      json_east = JSON_stringify_number (east bounds)\<rparr>"

text \<open>A layer of the answer of \<open>getLayers\<close>; \<open>layer_features\<close> is \<open>None\<close> when
  \<open>layer.features\<close> is missing or not an array.\<close>

record gis_layer =
  layer_type :: layer_id
  layer_features :: "feature list option"

text \<open>What a service promise resolves with; the component stores it as it comes.\<close>

datatype js_data = Null | Layers "gis_layer list" | GeoJson "feature list" | Opaque string

subsection \<open>Timers, pending promises and the state\<close>

datatype timer_callback =
    MarkerTimer bounds_object
  | GisTimer bounds_object "layer_id list"

datatype pending = PInitialize | PEmirates | PAreas string | PLayers | PPropertyGis

datatype service_call =
    Initialize
  | GetEmiratesBoundaries
  | GetAreasBoundaries string
  | GetPropertyGisData string
  | GetLayers bounds_object "layer_id list"
  | LoadPropertyMarkers json_text nat

text \<open>
  The \<open>useState\<close> values of the component, the values it reads from its props and
  from the context, and the run-time around it: the clock in milliseconds, the timers of
  \<open>setTimeout\<close> (identifier, due time, callback), the timer captured by the cleanup
  function that the marker effect returned, the service promises that have not settled,
  the log of the calls made, and the rejections that no handler caught.
\<close>

record pm_state =
  mapBounds :: "map_bounds option"
  gisLayers :: js_data
  gisLoading :: bool
  gisError :: "string option"
  pm_gisInitialized :: bool
  propertyGisData :: js_data
  emiratesBoundaries :: js_data
  areasBoundaries :: js_data
  pm_showEmirates :: bool
  pm_showAreas :: bool
  pm_currentEmirate :: string
  propertyMarkers :: "pm_property list option"
  propertyDetails :: "pm_property option"
  loadPropertyMarkers :: bool
  enabledGisLayers :: "layer_id list"
  now :: nat
  timers :: "(nat \<times> nat \<times> timer_callback) list"
  next_timer :: nat
  marker_cleanup :: "nat option"
  inflight :: "(nat \<times> pending) list"
  next_request :: nat
  calls :: "service_call list"
  unhandled_rejections :: "js_error list"
  pm_console_error :: "(string \<times> js_error) list"

definition setTimeout :: "timer_callback \<Rightarrow> nat \<Rightarrow> pm_state \<Rightarrow> nat \<times> pm_state" where
  "setTimeout callback delay s =
     (next_timer s,
      s\<lparr>timers := timers s @ [(next_timer s, now s + delay, callback)],
        next_timer := Suc (next_timer s)\<rparr>)"

definition clearTimeout :: "nat \<Rightarrow> pm_state \<Rightarrow> pm_state" where
  "clearTimeout timer s = s\<lparr>timers := filter (\<lambda>(i, due, callback). i \<noteq> timer) (timers s)\<rparr>"

text \<open>A call of the service whose promise the component awaits.\<close>

definition await_call :: "service_call \<Rightarrow> pending \<Rightarrow> pm_state \<Rightarrow> pm_state" where
  "await_call call p s =
     s\<lparr>calls := calls s @ [call],
       inflight := inflight s @ [(next_request s, p)],
       next_request := Suc (next_request s)\<rparr>"

subsection \<open>The effects\<close>

text \<open>Fetch emirates boundaries: dependencies \<open>[gisService, gisInitialized, showEmirates]\<close>.\<close>

definition fetchEmiratesBoundaries_effect :: "pm_state \<Rightarrow> pm_state" where
  "fetchEmiratesBoundaries_effect s =
     (if \<not> pm_gisInitialized s \<or> \<not> pm_showEmirates s then s
      else await_call GetEmiratesBoundaries PEmirates s)"

text \<open>Fetch areas boundaries: \<open>[gisService, gisInitialized, showAreas, currentEmirate]\<close>.\<close>

definition fetchAreasBoundaries_effect :: "pm_state \<Rightarrow> pm_state" where
  "fetchAreasBoundaries_effect s =
     (if \<not> pm_gisInitialized s \<or> \<not> pm_showAreas s then s
      else await_call (GetAreasBoundaries (pm_currentEmirate s)) (PAreas (pm_currentEmirate s)) s)"

text \<open>
  Load property markers when map bounds change: \<open>[mapBounds, loadPropertyMarkers]\<close>.
  The effect returns \<open>() => clearTimeout(timer)\<close>, which React calls before the effect
  runs again.
\<close>

definition loadPropertyMarkers_effect :: "pm_state \<Rightarrow> pm_state" where
  "loadPropertyMarkers_effect s =
     (case mapBounds s of
        None \<Rightarrow> s
      | Some mb \<Rightarrow>
          if loadPropertyMarkers s then
            (let (timer, s1) = setTimeout (MarkerTimer (bounds_of mb)) 300 s
             in s1\<lparr>marker_cleanup := Some timer\<rparr>)
          else s)"

definition loadPropertyMarkers_rerun :: "pm_state \<Rightarrow> pm_state" where
  "loadPropertyMarkers_rerun s =
     loadPropertyMarkers_effect
       (case marker_cleanup s of
          None \<Rightarrow> s
        | Some timer \<Rightarrow> (clearTimeout timer s)\<lparr>marker_cleanup := None\<rparr>)"

text \<open>Update map bounds when property markers change: \<open>[propertyMarkers, mapBounds]\<close>.\<close>

record bounds_acc =
  acc_north :: jsnum
  acc_south :: jsnum
  acc_east :: jsnum
  acc_west :: jsnum
  validLocationsCount :: nat

definition forEach_body :: "bounds_acc \<Rightarrow> pm_property \<Rightarrow> bounds_acc" where
  "forEach_body acc property =
     (case (number_not_NaN (property_lat property), number_not_NaN (property_lng property)) of
        (Some lat_n, Some lng_n) \<Rightarrow>
          \<lparr>acc_north = Math_max (acc_north acc) lat_n,
           acc_south = Math_min (acc_south acc) lat_n,
           acc_east = Math_max (acc_east acc) lng_n,
           acc_west = Math_min (acc_west acc) lng_n,
           validLocationsCount = Suc (validLocationsCount acc)\<rparr>
      | _ \<Rightarrow> acc)"

definition calculate_bounds :: "pm_property list \<Rightarrow> bounds_acc" where
  "calculate_bounds properties =
     foldl forEach_body
       \<lparr>acc_north = Finite (- 90), acc_south = Finite 90,
        acc_east = Finite (- 180), acc_west = Finite 180, validLocationsCount = 0\<rparr>
       properties"

definition updateMapBounds_effect :: "pm_state \<Rightarrow> pm_state" where
  "updateMapBounds_effect s =
     (case propertyMarkers s of
        None \<Rightarrow> s
      | Some properties \<Rightarrow>
          if length properties = 0 \<or> mapBounds s \<noteq> None then s
          else
            (let acc = calculate_bounds properties in
             if validLocationsCount acc > 0 then
               s\<lparr>mapBounds := Some ((acc_south acc, acc_west acc), (acc_north acc, acc_east acc))\<rparr>
             else s))"

text \<open>
  Fetch GIS data when map bounds change:
  \<open>[mapBounds, gisService, enabledGisLayers, gisInitialized]\<close>. The body of the
  \<open>try\<close> sets two state values and starts a timer; the call of the service and its
  \<open>await\<close> are in the timer's callback, which runs later and outside the \<open>try\<close>. The
  function that clears the timer is the result of the async function
  \<open>fetchGisData\<close>, which the effect drops: the effect itself returns nothing, so
  React has no cleanup to call.
\<close>

definition fetchGisData_try :: "map_bounds \<Rightarrow> pm_state \<Rightarrow> js_error + pm_state" where
  "fetchGisData_try mb s =
     (let s1 = s\<lparr>gisLoading := True, gisError := None\<rparr>;
          (timer, s2) = setTimeout (GisTimer (bounds_of mb) (enabledGisLayers s1)) 500 s1
      in Inr s2)"

definition fetchGisData :: "map_bounds \<Rightarrow> pm_state \<Rightarrow> pm_state" where
  "fetchGisData mb s =
     (case fetchGisData_try mb s of
        Inr s' \<Rightarrow> s'
      | Inl error \<Rightarrow>
          s\<lparr>pm_console_error := pm_console_error s @ [(''Error fetching GIS data:'', error)],
            gisError := Some (if error \<noteq> [] then error else ''Failed to load GIS data''),
            gisLoading := False\<rparr>)"

definition fetchGisData_effect :: "pm_state \<Rightarrow> pm_state" where
  "fetchGisData_effect s =
     (case mapBounds s of
        None \<Rightarrow> s
      | Some mb \<Rightarrow>
          if length (enabledGisLayers s) = 0 \<or> \<not> pm_gisInitialized s then s
          else fetchGisData mb s)"

text \<open>Fetch property-specific GIS data: \<open>[propertyDetails, gisService, gisInitialized]\<close>.\<close>

definition fetchPropertyGisData_effect :: "pm_state \<Rightarrow> pm_state" where
  "fetchPropertyGisData_effect s =
     (case propertyDetails s of
        None \<Rightarrow> s
      | Some details \<Rightarrow>
          (case p_id details of
             None \<Rightarrow> s
           | Some i \<Rightarrow>
               if i = [] \<or> \<not> pm_gisInitialized s then s
               else await_call (GetPropertyGisData i) PPropertyGis s))"

subsection \<open>Timer callbacks and the settling of a promise\<close>

fun run_timer :: "timer_callback \<Rightarrow> pm_state \<Rightarrow> pm_state" where
  "run_timer (MarkerTimer bounds) s =
     s\<lparr>calls := calls s @ [LoadPropertyMarkers (JSON_stringify bounds) 100]\<rparr>"
| "run_timer (GisTimer bounds layers) s = await_call (GetLayers bounds layers) PLayers s"

text \<open>
  The rest of each async function after its \<open>await\<close>: \<open>Inr\<close> is the value the promise
  resolved with, \<open>Inl\<close> the error it rejected with. The callback of the GIS timer has
  no \<open>try\<close>, so its rejection is unhandled.
\<close>

fun settle :: "pending \<Rightarrow> js_error + js_data \<Rightarrow> pm_state \<Rightarrow> pm_state" where
  "settle PInitialize (Inr d) s = s\<lparr>pm_gisInitialized := True\<rparr>"
| "settle PInitialize (Inl err) s =
     s\<lparr>pm_console_error := pm_console_error s @ [(''Failed to initialize GIS service:'', err)],
       gisError := Some ''GIS API initialization failed. Some features may be limited.''\<rparr>"
| "settle PEmirates (Inr d) s = s\<lparr>emiratesBoundaries := d\<rparr>"
| "settle PEmirates (Inl err) s =
     s\<lparr>pm_console_error := pm_console_error s @ [(''Error fetching emirates boundaries:'', err)],
       gisError := Some ''Failed to load emirates boundaries''\<rparr>"
| "settle (PAreas emirate) (Inr d) s = s\<lparr>areasBoundaries := d\<rparr>"
| "settle (PAreas emirate) (Inl err) s =
     s\<lparr>pm_console_error :=
         pm_console_error s @ [(''Error fetching area boundaries for '' @ emirate @ '':'', err)],
       gisError := Some (''Failed to load area boundaries for '' @ emirate)\<rparr>"
| "settle PLayers (Inr d) s = s\<lparr>gisLayers := d, gisLoading := False\<rparr>"
| "settle PLayers (Inl err) s = s\<lparr>unhandled_rejections := unhandled_rejections s @ [err]\<rparr>"
| "settle PPropertyGis (Inr d) s = s\<lparr>propertyGisData := d\<rparr>"
| "settle PPropertyGis (Inl err) s =
     s\<lparr>pm_console_error := pm_console_error s @ [(''Error fetching property GIS data:'', err)],
       propertyGisData := Null\<rparr>"

text \<open>
  Time passes: the timers that are due run in the order of their due times (timers due
  at the same time in the order of their creation).
\<close>

definition elapse :: "nat \<Rightarrow> pm_state \<Rightarrow> pm_state" where
  "elapse d s =
     (let t = now s + d;
          due = sort_key (\<lambda>(i, due, callback). due) (filter (\<lambda>(i, due, callback). due \<le> t) (timers s));
          s1 = s\<lparr>now := t, timers := filter (\<lambda>(i, due, callback). \<not> due \<le> t) (timers s)\<rparr>
      in foldl (\<lambda>s (i, due, callback). run_timer callback s) s1 due)"

subsection \<open>Events of the component\<close>

text \<open>
  An event changes a value; React then runs again the effects that have this value among
  their dependencies, in the order of the source. The only effect that writes a
  dependency of an effect is the one that updates \<open>mapBounds\<close>; when it does, the
  effects that depend on \<open>mapBounds\<close> run in the next render. A new array or function
  from the props or the context is a changed dependency whatever it holds; a state
  setter called with the value the state has does nothing.
\<close>

definition after_mapBounds :: "pm_state \<Rightarrow> pm_state" where
  "after_mapBounds s = fetchGisData_effect (updateMapBounds_effect (loadPropertyMarkers_rerun s))"

definition after_gisInitialized :: "pm_state \<Rightarrow> pm_state" where
  "after_gisInitialized s =
     fetchPropertyGisData_effect (fetchGisData_effect
       (fetchAreasBoundaries_effect (fetchEmiratesBoundaries_effect s)))"

datatype pm_event =
    CtxPropertyMarkers "pm_property list option"
  | CtxLoadPropertyMarkers bool
  | CtxPropertyDetails "pm_property option"
  | PropEnabledGisLayers "layer_id list"
  | SetShowEmirates bool
  | SetShowAreas bool
  | SetCurrentEmirate string
  | ShowAreasForEmirate string
  | Elapse nat
  | Settle nat "js_error + js_data"

fun pm_step :: "pm_event \<Rightarrow> pm_state \<Rightarrow> pm_state" where
  "pm_step (CtxPropertyMarkers pm) s =
     (let s1 = updateMapBounds_effect (s\<lparr>propertyMarkers := pm\<rparr>) in
      if mapBounds s1 \<noteq> mapBounds s then after_mapBounds s1 else s1)"
| "pm_step (CtxLoadPropertyMarkers f) s = loadPropertyMarkers_rerun (s\<lparr>loadPropertyMarkers := f\<rparr>)"
| "pm_step (CtxPropertyDetails details) s = fetchPropertyGisData_effect (s\<lparr>propertyDetails := details\<rparr>)"
| "pm_step (PropEnabledGisLayers layers) s = fetchGisData_effect (s\<lparr>enabledGisLayers := layers\<rparr>)"
| "pm_step (SetShowEmirates show) s =
     (if pm_showEmirates s = show then s
      else fetchEmiratesBoundaries_effect (s\<lparr>pm_showEmirates := show\<rparr>))"
| "pm_step (SetShowAreas show) s =
     (if pm_showAreas s = show then s
      else fetchAreasBoundaries_effect (s\<lparr>pm_showAreas := show\<rparr>))"
| "pm_step (SetCurrentEmirate emirate) s =
     (if pm_currentEmirate s = emirate then s
      else fetchAreasBoundaries_effect (s\<lparr>pm_currentEmirate := emirate\<rparr>))"
| "pm_step (ShowAreasForEmirate emirateName) s =
     (if pm_currentEmirate s = emirateName \<and> pm_showAreas s then s
      else fetchAreasBoundaries_effect (s\<lparr>pm_currentEmirate := emirateName, pm_showAreas := True\<rparr>))"
| "pm_step (Elapse d) s = elapse d s"
| "pm_step (Settle request r) s =
     (case map_of (inflight s) request of
        None \<Rightarrow> s
      | Some p \<Rightarrow>
          (let s1 = settle p r (s\<lparr>inflight := filter (\<lambda>(i, q). i \<noteq> request) (inflight s)\<rparr>) in
           if pm_gisInitialized s1 \<noteq> pm_gisInitialized s then after_gisInitialized s1 else s1))"

fun pm_run :: "pm_event list \<Rightarrow> pm_state \<Rightarrow> pm_state" where
  "pm_run [] s = s"
| "pm_run (ev # evs) s = pm_run evs (pm_step ev s)"

text \<open>
  The first render, with the props and context values it receives, and the first run of
  every effect (the first one calls \<open>gisService.initialize()\<close>).
\<close>

definition pm_init :: "pm_property list option \<Rightarrow> pm_property option \<Rightarrow> bool \<Rightarrow> layer_id list \<Rightarrow> pm_state" where
  "pm_init markers details loadFn layers =
     \<lparr>mapBounds = None, gisLayers = Null, gisLoading = False, gisError = None,
      pm_gisInitialized = False, propertyGisData = Null, emiratesBoundaries = Null,
      areasBoundaries = Null, pm_showEmirates = False, pm_showAreas = False,
      pm_currentEmirate = ''Dubai'', propertyMarkers = markers, propertyDetails = details,
      loadPropertyMarkers = loadFn, enabledGisLayers = layers, now = 0, timers = [],
      next_timer = 0, marker_cleanup = None, inflight = [], next_request = 0, calls = [],
      unhandled_rejections = [], pm_console_error = []\<rparr>"

definition pm_mount :: "pm_state \<Rightarrow> pm_state" where
  "pm_mount s =
     (let s1 = fetchPropertyGisData_effect (fetchGisData_effect (updateMapBounds_effect
                 (loadPropertyMarkers_effect (fetchAreasBoundaries_effect
                   (fetchEmiratesBoundaries_effect (await_call Initialize PInitialize s))))))
      in if mapBounds s1 \<noteq> mapBounds s then after_mapBounds s1 else s1)"

subsection \<open>Rendering the GIS layers, toggling a layer, clicking a marker\<close>

text \<open>
  The layers of \<open>gisLayers.layers\<close> for which the render returns a \<open>GeoJSON\<close>
  element; for the others it returns null.
\<close>

definition rendered_gis_layers :: "pm_state \<Rightarrow> gis_layer list" where
  "rendered_gis_layers s =
     (case gisLayers s of
        Layers layers \<Rightarrow>
          filter (\<lambda>layer.
            (case layer_features layer of None \<Rightarrow> False | Some fs \<Rightarrow> length fs \<noteq> 0)
            \<and> layer_type layer \<in> set (enabledGisLayers s)) layers
      | _ \<Rightarrow> [])"

text \<open>\<open>onToggleLayer\<close> of the settings panel: the list it hands to \<open>onSelectProperty\<close>.\<close>

definition onToggleLayer :: "layer_id list \<Rightarrow> layer_id \<Rightarrow> layer_id list" where
  "onToggleLayer enabled layer =
     (let isEnabled = layer \<in> set enabled in
      if isEnabled then filter (\<lambda>l. l \<noteq> layer) enabled else enabled @ [layer])"

text \<open>\<open>handleMarkerClick\<close>: the argument of the call of \<open>selectProperty\<close>, when it is made.\<close>

definition handleMarkerClick :: "string option \<Rightarrow> bool \<Rightarrow> string option" where
  "handleMarkerClick propertyId selectProperty_is_function =
     (case propertyId of
        None \<Rightarrow> None
      | Some i \<Rightarrow> if i \<noteq> [] \<and> selectProperty_is_function then Some i else None)"

section \<open>Notions used by the statements\<close>

text \<open>The two display toggles of the Google map.\<close>

fun is_display_toggle :: "gm_event \<Rightarrow> bool" where
  "is_display_toggle (ToggleEmirates show) = True"
| "is_display_toggle (ToggleAreas show) = True"
| "is_display_toggle ev = False"

text \<open>The map mode that belongs to a pair of display flags.\<close>

definition mode_of_flags :: "bool \<Rightarrow> bool \<Rightarrow> string" where
  "mode_of_flags e a =
     (if e \<and> a then ''hybrid'' else if e then ''emirates'' else if a then ''areas''
      else ''properties'')"

text \<open>
  What it means that a request carries the bounds \<open>[[s, w], [n, e]]\<close>, written out
  field by field and without the functions of the model. An object carries them when
  its \<open>south\<close>, \<open>west\<close>, \<open>north\<close> and \<open>east\<close> are \<open>s\<close>, \<open>w\<close>, \<open>n\<close>
  and \<open>e\<close>. A JSON value shows a bound when it is that number, for a finite bound, and
  \<open>null\<close> for an infinite one; a JSON text shows the bounds when each of its four
  values shows the bound of its name.
\<close>

fun object_carries :: "map_bounds \<Rightarrow> bounds_object \<Rightarrow> bool" where
  "object_carries ((s, w), (n, e)) b \<longleftrightarrow> south b = s \<and> west b = w \<and> north b = n \<and> east b = e"

fun json_shows :: "json_value \<Rightarrow> jsnum \<Rightarrow> bool" where
  "json_shows v (Finite x) \<longleftrightarrow> v = JsonNumber x"
| "json_shows v NegInfinity \<longleftrightarrow> v = JsonNull"
| "json_shows v PosInfinity \<longleftrightarrow> v = JsonNull"

fun text_shows :: "map_bounds \<Rightarrow> json_text \<Rightarrow> bool" where
  "text_shows ((s, w), (n, e)) j \<longleftrightarrow>
     json_shows (json_south j) s \<and> json_shows (json_west j) w
     \<and> json_shows (json_north j) n \<and> json_shows (json_east j) e"

text \<open>
  A call that depends on the bounds carries the current bounds \<open>mb\<close>: there are
  bounds, the argument of \<open>getLayers\<close> carries them, and the marker request has a
  text that shows them and the limit 100. The same for the callback of a timer that has
  not run yet.
\<close>

fun carries_bounds :: "map_bounds option \<Rightarrow> service_call \<Rightarrow> bool" where
  "carries_bounds None (GetLayers b layers) = False"
| "carries_bounds (Some mb) (GetLayers b layers) = object_carries mb b"
| "carries_bounds None (LoadPropertyMarkers j limit) = False"
| "carries_bounds (Some mb) (LoadPropertyMarkers j limit) = (text_shows mb j \<and> limit = 100)"
| "carries_bounds mb c = True"

fun timer_carries :: "map_bounds option \<Rightarrow> timer_callback \<Rightarrow> bool" where
  "timer_carries None cb = False"
| "timer_carries (Some mb) (MarkerTimer b) = object_carries mb b"
| "timer_carries (Some mb) (GisTimer b layers) = object_carries mb b"

definition bounds_inv :: "pm_state \<Rightarrow> bool" where
  "bounds_inv s \<longleftrightarrow>
     (\<forall>t\<in>set (timers s). timer_carries (mapBounds s) (snd (snd t)))
     \<and> (\<forall>c\<in>set (calls s). carries_bounds (mapBounds s) c)"

fun is_layers_call_for :: "bounds_object \<Rightarrow> service_call \<Rightarrow> bool" where
  "is_layers_call_for b (GetLayers b' layers) = (b' = b)"
| "is_layers_call_for b c = False"

text \<open>
  The locations that pass the test of the bounds effect (\<open>lat\<close> and \<open>lng\<close> are numbers
  and not NaN), and the range of geographic coordinates.
\<close>

definition valid_location :: "pm_property \<Rightarrow> (jsnum \<times> jsnum) option" where
  "valid_location property =
     (case (number_not_NaN (property_lat property), number_not_NaN (property_lng property)) of
        (Some a, Some b) \<Rightarrow> Some (a, b)
      | _ \<Rightarrow> None)"

definition valid_locations :: "pm_property list \<Rightarrow> (jsnum \<times> jsnum) list" where
  "valid_locations properties = List.map_filter valid_location properties"

definition in_geographic_range :: "jsnum \<times> jsnum \<Rightarrow> bool" where
  "in_geographic_range l \<longleftrightarrow>
     Finite (- 90) \<le> fst l \<and> fst l \<le> Finite 90 \<and> Finite (- 180) \<le> snd l \<and> snd l \<le> Finite 180"

section \<open>Example inputs\<close>

text \<open>
  A service that answers every request and one that rejects every request; a Google map
  that is loaded, with its service initialised.
\<close>

definition example_service :: gis_service where
  "example_service layerType boundingBox = Inr [''feature of '' @ layerType]"

definition failing_service :: gis_service where
  "failing_service layerType boundingBox = Inl ''service unavailable''"

definition example_map :: lat_lng_bounds where
  "example_map = \<lparr>getNorthEast = (26, 56), getSouthWest = (24, 54)\<rparr>"

definition example_box :: bounding_box where
  "example_box = \<lparr>bb_north = 26, bb_east = 56, bb_south = 24, bb_west = 54\<rparr>"

definition gm_ready :: gm_state where
  "gm_ready =
     gm_run [(example_service, ScriptLoaded), (example_service, MapLoad (Some example_map)),
             (example_service, ServiceInitialized (Inr True))]
       (gm_init None ''properties'')"

definition example_marker :: gm_property where
  "example_marker = \<lparr>gp_id = ''m1'', gp_lat = 25, gp_lng = 55\<rparr>"

text \<open>
  Properties of the Leaflet map: two in Dubai, one with a latitude of 100, one without a
  usable location.
\<close>

definition example_property :: pm_property where
  "example_property =
     \<lparr>p_id = Some ''a'', p_location = Some \<lparr>lat = JNumber (Finite 25), lng = JNumber (Finite 55)\<rparr>\<rparr>"

definition other_property :: pm_property where
  "other_property =
     \<lparr>p_id = Some ''b'', p_location = Some \<lparr>lat = JNumber (Finite 24), lng = JNumber (Finite 54)\<rparr>\<rparr>"

definition far_property :: pm_property where
  "far_property =
     \<lparr>p_id = Some ''c'', p_location = Some \<lparr>lat = JNumber (Finite 100), lng = JNumber (Finite 0)\<rparr>\<rparr>"

definition unlocated_property :: pm_property where
  "unlocated_property = \<lparr>p_id = Some ''d'', p_location = Some \<lparr>lat = JNaN, lng = JString ''55''\<rparr>\<rparr>"

definition infinite_property :: pm_property where
  "infinite_property =
     \<lparr>p_id = Some ''e'', p_location = Some \<lparr>lat = JNumber PosInfinity, lng = JNumber (Finite 55)\<rparr>\<rparr>"

definition example_bounds :: bounds_object where
  "example_bounds = \<lparr>south = Finite 25, west = Finite 55, north = Finite 25, east = Finite 55\<rparr>"

text \<open>
  The Leaflet map after its mount, the initialisation of the GIS service and the arrival
  of one property: the bounds are set and the two timers are pending. Then the same map
  1100 ms later, the parent having passed a new list of enabled layers after 100 ms; the
  map one second after the arrival of two properties, and of one property with an
  infinite latitude; and the map with the emirates, the areas and the details of a
  property requested.
\<close>

definition pm_ready :: pm_state where
  "pm_ready =
     pm_run [Settle 0 (Inr Null), CtxPropertyMarkers (Some [example_property])]
       (pm_mount (pm_init None None True [''parcels'']))"

definition pm_overlapping :: pm_state where
  "pm_overlapping =
     pm_run [Elapse 100, PropEnabledGisLayers [''parcels'', ''zoning''], Elapse 1000] pm_ready"

definition pm_two :: pm_state where
  "pm_two =
     pm_run [Settle 0 (Inr Null), CtxPropertyMarkers (Some [example_property, other_property]),
             Elapse 1000]
       (pm_mount (pm_init None None True [''parcels'']))"

definition pm_infinite :: pm_state where
  "pm_infinite =
     pm_run [Settle 0 (Inr Null), CtxPropertyMarkers (Some [infinite_property]), Elapse 1000]
       (pm_mount (pm_init None None True [''parcels'']))"

definition pm_fetching :: pm_state where
  "pm_fetching =
     pm_run [SetShowEmirates True, SetShowAreas True, CtxPropertyDetails (Some example_property)]
       pm_ready"

definition stale_layers :: js_data where
  "stale_layers = Layers [\<lparr>layer_type = ''parcels'', layer_features = Some [''parcel 1'']\<rparr>]"

definition fresh_layers :: js_data where
  "fresh_layers =
     Layers [\<lparr>layer_type = ''parcels'', layer_features = Some [''parcel 1'']\<rparr>,
             \<lparr>layer_type = ''zoning'', layer_features = Some [''zone 1'']\<rparr>]"

section \<open>Evaluation of the example states\<close>

lemmas pm_effect_defs =
  fetchEmiratesBoundaries_effect_def fetchAreasBoundaries_effect_def
  loadPropertyMarkers_effect_def loadPropertyMarkers_rerun_def
  fetchGisData_try_def fetchGisData_def fetchGisData_effect_def
  fetchPropertyGisData_effect_def await_call_def setTimeout_def clearTimeout_def

lemmas pm_eval_defs =
  pm_effect_defs pm_mount_def pm_init_def after_mapBounds_def after_gisInitialized_def
  updateMapBounds_effect_def calculate_bounds_def forEach_body_def property_lat_def
  property_lng_def Math_max_def Math_min_def bounds_of_def elapse_def JSON_stringify_def Let_def

lemmas valid_eval_defs =
  valid_locations_def valid_location_def List.map_filter_simps property_lat_def property_lng_def

lemma pm_ready_eval:
  "pm_ready =
     \<lparr>mapBounds = Some ((Finite 25, Finite 55), (Finite 25, Finite 55)),
      gisLayers = Null, gisLoading = True, gisError = None,
      pm_gisInitialized = True, propertyGisData = Null, emiratesBoundaries = Null,
      areasBoundaries = Null, pm_showEmirates = False, pm_showAreas = False,
      pm_currentEmirate = ''Dubai'', propertyMarkers = Some [example_property],
      propertyDetails = None, loadPropertyMarkers = True, enabledGisLayers = [''parcels''],
      now = 0,
      timers = [(0, 300, MarkerTimer example_bounds), (1, 500, GisTimer example_bounds [''parcels''])],
      next_timer = 2, marker_cleanup = Some 0, inflight = [], next_request = 1,
      calls = [Initialize], unhandled_rejections = [], pm_console_error = []\<rparr>"
  by (simp add: pm_ready_def pm_eval_defs example_property_def example_bounds_def)

lemma pm_overlapping_eval:
  "pm_overlapping =
     \<lparr>mapBounds = Some ((Finite 25, Finite 55), (Finite 25, Finite 55)),
      gisLayers = Null, gisLoading = True, gisError = None,
      pm_gisInitialized = True, propertyGisData = Null, emiratesBoundaries = Null,
      areasBoundaries = Null, pm_showEmirates = False, pm_showAreas = False,
      pm_currentEmirate = ''Dubai'', propertyMarkers = Some [example_property],
      propertyDetails = None, loadPropertyMarkers = True,
      enabledGisLayers = [''parcels'', ''zoning''],
      now = 1100, timers = [], next_timer = 3, marker_cleanup = Some 0,
      inflight = [(1, PLayers), (2, PLayers)], next_request = 3,
      calls = [Initialize, LoadPropertyMarkers (JSON_stringify example_bounds) 100,
               GetLayers example_bounds [''parcels''],
               GetLayers example_bounds [''parcels'', ''zoning'']],
      unhandled_rejections = [], pm_console_error = []\<rparr>"
  by (simp add: pm_overlapping_def pm_ready_eval pm_eval_defs example_bounds_def)

lemma pm_fetching_eval:
  "pm_fetching =
     \<lparr>mapBounds = Some ((Finite 25, Finite 55), (Finite 25, Finite 55)),
      gisLayers = Null, gisLoading = True, gisError = None,
      pm_gisInitialized = True, propertyGisData = Null, emiratesBoundaries = Null,
      areasBoundaries = Null, pm_showEmirates = True, pm_showAreas = True,
      pm_currentEmirate = ''Dubai'', propertyMarkers = Some [example_property],
      propertyDetails = Some example_property, loadPropertyMarkers = True,
      enabledGisLayers = [''parcels''], now = 0,
      timers = [(0, 300, MarkerTimer example_bounds), (1, 500, GisTimer example_bounds [''parcels''])],
      next_timer = 2, marker_cleanup = Some 0,
      inflight = [(1, PEmirates), (2, PAreas ''Dubai''), (3, PPropertyGis)], next_request = 4,
      calls = [Initialize, GetEmiratesBoundaries, GetAreasBoundaries ''Dubai'', GetPropertyGisData ''a''],
      unhandled_rejections = [], pm_console_error = []\<rparr>"
  by (simp add: pm_fetching_def pm_ready_eval pm_eval_defs example_property_def)

lemma pm_two_calls:
  "mapBounds pm_two = Some ((Finite 24, Finite 54), (Finite 25, Finite 55))
   \<and> calls pm_two =
       [Initialize,
        LoadPropertyMarkers
          \<lparr>json_south = JsonNumber 24, json_west = JsonNumber 54,
           json_north = JsonNumber 25, json_east = JsonNumber 55\<rparr> 100,
        GetLayers \<lparr>south = Finite 24, west = Finite 54, north = Finite 25, east = Finite 55\<rparr>
          [''parcels'']]"
  by (simp add: pm_two_def pm_eval_defs example_property_def other_property_def)

lemma gm_ready_eval:
  "gm_ready =
     \<lparr>selectedProperty = None, selectedPropertyId = None, mapLoaded = True,
      showEmirates = False, showAreas = False, currentEmirate = ''Dubai'',
      enabledLayers = [], gisInitialized = True, mapMode = ''properties'',
      mapRef = Some (Some example_map), googleMapsServiceRef = True, gisLayersRef = Map.empty,
      gisRequests = [], console_error = []\<rparr>"
  by (simp add: gm_ready_def gm_init_def gisLayers_effect_def Let_def)

section \<open>Toggling a GIS layer\<close>

text \<open>
  Claim C10. Toggling a layer id removes the id from the enabled list when it is there
  and appends it when it is not, so membership of the id is flipped and every other id
  is kept; toggling the same id twice gives a list with exactly the ids of the original
  list. The toggle of the Leaflet settings panel computes the same list.
\<close>

theorem toggle_layer_self_inverse:
  "(layerId \<in> set prev \<longrightarrow> handleToggleLayer prev layerId = filter (\<lambda>id. id \<noteq> layerId) prev)
   \<and> (layerId \<notin> set prev \<longrightarrow> handleToggleLayer prev layerId = prev @ [layerId])
   \<and> (layerId \<in> set (handleToggleLayer prev layerId) \<longleftrightarrow> layerId \<notin> set prev)
   \<and> (\<forall>other. other \<noteq> layerId \<longrightarrow>
         (other \<in> set (handleToggleLayer prev layerId) \<longleftrightarrow> other \<in> set prev))
   \<and> set (handleToggleLayer (handleToggleLayer prev layerId) layerId) = set prev
   \<and> onToggleLayer prev layerId = handleToggleLayer prev layerId"
  by (auto simp: handleToggleLayer_def onToggleLayer_def)

theorem toggle_layer_self_inverse_witness:
  "''zoning'' \<in> set [''parcels'', ''zoning'', ''schools'']
   \<and> handleToggleLayer [''parcels'', ''zoning'', ''schools''] ''zoning'' = [''parcels'', ''schools'']
   \<and> handleToggleLayer [''parcels'', ''schools''] ''zoning'' = [''parcels'', ''schools'', ''zoning'']
   \<and> set (handleToggleLayer (handleToggleLayer [''parcels'', ''zoning'', ''schools''] ''zoning'') ''zoning'')
       = set [''parcels'', ''zoning'', ''schools'']"
  using toggle_layer_self_inverse [of "''zoning''" "[''parcels'', ''zoning'', ''schools'']"]
    toggle_layer_self_inverse [of "''zoning''" "[''parcels'', ''schools'']"]
  by auto

section \<open>Map mode and display flags\<close>

lemma toggle_step_mode:
  "is_display_toggle ev \<Longrightarrow>
   mapMode (gm_step svc ev s) =
     mode_of_flags (showEmirates (gm_step svc ev s)) (showAreas (gm_step svc ev s))"
  by (cases ev) (auto simp: handleToggleEmirates_def handleToggleAreas_def mode_of_flags_def Let_def)

lemma toggles_run_mode:
  "evs \<noteq> [] \<Longrightarrow> \<forall>e\<in>set evs. is_display_toggle (snd e) \<Longrightarrow>
   mapMode (gm_run evs s) = mode_of_flags (showEmirates (gm_run evs s)) (showAreas (gm_run evs s))"
proof (induction evs arbitrary: s)
  case Nil
  then show ?case by simp
next
  case (Cons e evs)
  obtain svc ev where e: "e = (svc, ev)" by (cases e)
  show ?case
  proof (cases "evs = []")
    case True
    with Cons.prems e show ?thesis by (simp add: toggle_step_mode)
  next
    case False
    with Cons e show ?thesis by simp
  qed
qed

text \<open>
  Claim C9. After any sequence (of at least one) of emirates and areas display toggles
  on the Google map, from any state, the map mode agrees with the two display flags:
  it is \<open>hybrid\<close> exactly when both are shown, \<open>emirates\<close> when only the emirates
  are, \<open>areas\<close> when only the areas are, and \<open>properties\<close> when neither is.
\<close>

theorem mapMode_consistent_after_toggles:
  assumes "evs \<noteq> []" and "\<forall>e\<in>set evs. is_display_toggle (snd e)"
  shows "(mapMode (gm_run evs s) = ''hybrid'' \<longleftrightarrow> showEmirates (gm_run evs s) \<and> showAreas (gm_run evs s))
       \<and> (showEmirates (gm_run evs s) \<and> \<not> showAreas (gm_run evs s) \<longrightarrow> mapMode (gm_run evs s) = ''emirates'')
       \<and> (\<not> showEmirates (gm_run evs s) \<and> showAreas (gm_run evs s) \<longrightarrow> mapMode (gm_run evs s) = ''areas'')
       \<and> (\<not> showEmirates (gm_run evs s) \<and> \<not> showAreas (gm_run evs s) \<longrightarrow> mapMode (gm_run evs s) = ''properties'')"
  using toggles_run_mode [OF assms] by (simp add: mode_of_flags_def)

theorem mapMode_consistent_after_toggles_witness:
  "mapMode (gm_run [(example_service, ToggleEmirates True), (example_service, ToggleAreas True)] gm_ready) = ''hybrid''
   \<and> showEmirates (gm_run [(example_service, ToggleEmirates True), (example_service, ToggleAreas True)] gm_ready)
   \<and> showAreas (gm_run [(example_service, ToggleEmirates True), (example_service, ToggleAreas True)] gm_ready)"
proof -
  have a: "[(example_service, ToggleEmirates True), (example_service, ToggleAreas True)] \<noteq> []" by simp
  have b: "\<forall>e\<in>set [(example_service, ToggleEmirates True), (example_service, ToggleAreas True)]. is_display_toggle (snd e)"
    by simp
  have c: "showEmirates (gm_run [(example_service, ToggleEmirates True), (example_service, ToggleAreas True)] gm_ready)
     \<and> showAreas (gm_run [(example_service, ToggleEmirates True), (example_service, ToggleAreas True)] gm_ready)"
    by (simp add: handleToggleEmirates_def handleToggleAreas_def Let_def)
  from mapMode_consistent_after_toggles [OF a b, of gm_ready] c show ?thesis by blast
qed

section \<open>The selected property\<close>

lemma loadGisLayers_loop_frame:
  "selectedProperty (loadGisLayers_loop svc bb ts s) = selectedProperty s
   \<and> selectedPropertyId (loadGisLayers_loop svc bb ts s) = selectedPropertyId s
   \<and> enabledLayers (loadGisLayers_loop svc bb ts s) = enabledLayers s"
  by (induction ts arbitrary: s) (auto simp: Let_def split: sum.splits)

lemma gisLayers_effect_frame:
  "selectedProperty (gisLayers_effect svc s) = selectedProperty s
   \<and> selectedPropertyId (gisLayers_effect svc s) = selectedPropertyId s
   \<and> enabledLayers (gisLayers_effect svc s) = enabledLayers s"
  by (simp add: gisLayers_effect_def loadGisLayers_def loadGisLayers_loop_frame split: option.splits)

lemma gm_step_selection:
  "selectedPropertyId s = map_option gp_id (selectedProperty s) \<Longrightarrow>
   selectedPropertyId (gm_step svc ev s) = map_option gp_id (selectedProperty (gm_step svc ev s))"
  by (cases ev)
     (simp_all add: gisLayers_effect_frame Let_def marker_onClick_def infoWindow_onCloseClick_def
        handleToggleEmirates_def handleToggleAreas_def handleEmirateChange_def split: sum.splits)

lemma gm_run_selection:
  "selectedPropertyId s = map_option gp_id (selectedProperty s) \<Longrightarrow>
   selectedPropertyId (gm_run evs s) = map_option gp_id (selectedProperty (gm_run evs s))"
proof (induction evs arbitrary: s)
  case Nil
  then show ?case by simp
next
  case (Cons e evs)
  obtain svc ev where e: "e = (svc, ev)" by (cases e)
  from Cons.prems
  have "selectedPropertyId (gm_step svc ev s) = map_option gp_id (selectedProperty (gm_step svc ev s))"
    by (rule gm_step_selection)
  then show ?case using Cons.IH e by simp
qed

text \<open>
  Claim C5. The selection is one value: a click on a marker makes that property the
  selected property and its id the selected id, closing the info window sets both to
  null, and after any sequence of events of the component (started with no selected id
  in the context) the selected id is the id of the one selected property, or both are
  null. No event leaves two properties selected.
\<close>

theorem at_most_one_selected:
  "selectedProperty (gm_step svc (MarkerClick property) s) = Some property
   \<and> selectedPropertyId (gm_step svc (MarkerClick property) s) = Some (gp_id property)
   \<and> selectedProperty (gm_step svc InfoWindowClose s) = None
   \<and> selectedPropertyId (gm_step svc InfoWindowClose s) = None
   \<and> selectedPropertyId (gm_run evs (gm_init None mode))
       = map_option gp_id (selectedProperty (gm_run evs (gm_init None mode)))"
proof -
  have "selectedPropertyId (gm_init None mode) = map_option gp_id (selectedProperty (gm_init None mode))"
    by (simp add: gm_init_def)
  then have "selectedPropertyId (gm_run evs (gm_init None mode))
       = map_option gp_id (selectedProperty (gm_run evs (gm_init None mode)))"
    by (rule gm_run_selection)
  then show ?thesis by (simp add: marker_onClick_def infoWindow_onCloseClick_def)
qed

theorem at_most_one_selected_witness:
  "selectedProperty (gm_step example_service (MarkerClick example_marker) gm_ready) = Some example_marker
   \<and> selectedPropertyId (gm_step example_service (MarkerClick example_marker) gm_ready) = Some ''m1''
   \<and> selectedProperty (gm_step example_service InfoWindowClose gm_ready) = None
   \<and> selectedPropertyId (gm_step example_service InfoWindowClose gm_ready) = None"
  using at_most_one_selected [of example_service example_marker gm_ready "[]" "''properties''"]
  by (simp add: example_marker_def)

section \<open>GIS overlays and the enabled layers\<close>

lemma loadGisLayers_loop_requests:
  "gisRequests (loadGisLayers_loop svc bb ts s)
     = gisRequests s @ map (\<lambda>t. (t, bb)) (filter (\<lambda>t. t \<in> set (enabledLayers s)) ts)"
  by (induction ts arbitrary: s) (auto simp: Let_def loadGisLayers_loop_frame split: sum.splits)

lemma loadGisLayers_loop_ref_other:
  "t \<notin> set ts \<Longrightarrow> gisLayersRef (loadGisLayers_loop svc bb ts s) t = gisLayersRef s t"
  by (induction ts arbitrary: s) (auto simp: Let_def split: sum.splits)

lemma loadGisLayers_loop_ref:
  "distinct ts \<Longrightarrow> t \<in> set ts \<Longrightarrow>
   gisLayersRef (loadGisLayers_loop svc bb ts s) t =
     (if t \<in> set (enabledLayers s)
      then (case svc t bb of Inr fs \<Rightarrow> Some fs | Inl e \<Rightarrow> None) else None)"
proof (induction ts arbitrary: s)
  case Nil
  then show ?case by simp
next
  case (Cons a ts)
  show ?case
  proof (cases "t = a")
    case True
    with Cons.prems have "t \<notin> set ts" by simp
    with True show ?thesis
      by (auto simp: Let_def loadGisLayers_loop_ref_other split: sum.splits)
  next
    case False
    with Cons show ?thesis
      by (auto simp: Let_def split: sum.splits)
  qed
qed

lemma distinct_layerTypes: "distinct layerTypes"
  by (simp add: layerTypes_def)

text \<open>
  A pass of \<open>loadGisLayers\<close> leaves an overlay only for a layer type of the enabled
  list, and the Leaflet map renders a layer only when its type is in the enabled list.
\<close>

lemma pass_leaves_only_enabled:
  "t \<in> set layerTypes \<Longrightarrow> gisLayersRef (loadGisLayers_loop svc bb layerTypes s) t = Some fs \<Longrightarrow>
   t \<in> set (enabledLayers s)"
  by (simp add: loadGisLayers_loop_ref [OF distinct_layerTypes] split: if_splits)

lemma rendered_only_enabled:
  "l \<in> set (rendered_gis_layers s) \<Longrightarrow> layer_type l \<in> set (enabledGisLayers s)"
  by (auto simp: rendered_gis_layers_def split: js_data.splits)

text \<open>
  Claim C6 says that an overlay is on the map only while its layer is enabled, so that
  disabling a layer removes it. The effect of the Google map calls \<open>loadGisLayers\<close>
  only when the enabled list is not empty: when the one enabled layer is toggled off, no
  pass runs, and its overlay stays on the map with an empty enabled list.
\<close>

theorem disabling_last_layer_keeps_overlay:
  "enabledLayers s = [layerId] \<and> gisLayersRef s layerId = Some fs \<longrightarrow>
   enabledLayers (gm_step svc (ToggleLayer layerId) s) = []
   \<and> gisLayersRef (gm_step svc (ToggleLayer layerId) s) layerId = Some fs"
  by (simp add: handleToggleLayer_def gisLayers_effect_def)

theorem disabling_last_layer_keeps_overlay_witness:
  "enabledLayers (gm_step example_service (ToggleLayer ''parcels'') gm_ready) = [''parcels'']
   \<and> gisLayersRef (gm_step example_service (ToggleLayer ''parcels'') gm_ready) ''parcels''
       = Some [''feature of parcels'']
   \<and> enabledLayers (gm_run [(example_service, ToggleLayer ''parcels''),
                            (example_service, ToggleLayer ''parcels'')] gm_ready) = []
   \<and> gisLayersRef (gm_run [(example_service, ToggleLayer ''parcels''),
                           (example_service, ToggleLayer ''parcels'')] gm_ready) ''parcels''
       = Some [''feature of parcels'']"
proof -
  let ?s = "gm_step example_service (ToggleLayer ''parcels'') gm_ready"
  have a: "enabledLayers ?s = [''parcels'']"
    by (simp add: gisLayers_effect_frame handleToggleLayer_def gm_ready_eval)
  have b: "gisLayersRef ?s ''parcels'' = Some [''feature of parcels'']"
    by (simp add: gm_ready_eval handleToggleLayer_def gisLayers_effect_def loadGisLayers_def
          layerTypes_def example_service_def Let_def)
  from disabling_last_layer_keeps_overlay [of ?s "''parcels''" "[''feature of parcels'']" example_service]
    a b
  show ?thesis by simp
qed

section \<open>The bounds computed from the property set\<close>

lemma Math_max_max: "Math_max a b = max a b"
  by (simp add: Math_max_def max_def)

lemma Math_min_min: "Math_min a b = min a b"
  by (simp add: Math_min_def min_def)

lemma valid_locations_Cons:
  "valid_locations (p # ps) =
     (case valid_location p of None \<Rightarrow> valid_locations ps | Some l \<Rightarrow> l # valid_locations ps)"
  by (simp add: valid_locations_def List.map_filter_simps split: option.splits)

lemma foldl_forEach_body:
  "foldl forEach_body acc ps =
     \<lparr>acc_north = foldl max (acc_north acc) (map fst (valid_locations ps)),
      acc_south = foldl min (acc_south acc) (map fst (valid_locations ps)),
      acc_east = foldl max (acc_east acc) (map snd (valid_locations ps)),
      acc_west = foldl min (acc_west acc) (map snd (valid_locations ps)),
      validLocationsCount = validLocationsCount acc + length (valid_locations ps)\<rparr>"
proof (induction ps arbitrary: acc)
  case Nil
  then show ?case by (simp add: valid_locations_def List.map_filter_simps)
next
  case (Cons p ps)
  show ?case
    by (simp add: Cons.IH valid_locations_Cons)
       (auto simp: forEach_body_def valid_location_def Math_max_max Math_min_min
          split: option.splits)
qed

lemma foldl_max_Max: "xs \<noteq> [] \<Longrightarrow> foldl max (a::jsnum) xs = max a (Max (set xs))"
proof (induction xs arbitrary: a)
  case Nil
  then show ?case by simp
next
  case (Cons x xs)
  show ?case
  proof (cases "xs = []")
    case True
    then show ?thesis by simp
  next
    case False
    with Cons.IH [of "max a x"] show ?thesis by (simp add: max.assoc)
  qed
qed

lemma foldl_min_Min: "xs \<noteq> [] \<Longrightarrow> foldl min (a::jsnum) xs = min a (Min (set xs))"
proof (induction xs arbitrary: a)
  case Nil
  then show ?case by simp
next
  case (Cons x xs)
  show ?case
  proof (cases "xs = []")
    case True
    then show ?thesis by simp
  next
    case False
    with Cons.IH [of "min a x"] show ?thesis by (simp add: min.assoc)
  qed
qed

lemma updateMapBounds_effect_value:
  assumes "propertyMarkers s = Some ps" and "mapBounds s = None" and "valid_locations ps \<noteq> []"
  shows "mapBounds (updateMapBounds_effect s) =
     Some ((min (Finite 90) (Min (fst ` set (valid_locations ps))),
            min (Finite 180) (Min (snd ` set (valid_locations ps)))),
           (max (Finite (- 90)) (Max (fst ` set (valid_locations ps))),
            max (Finite (- 180)) (Max (snd ` set (valid_locations ps)))))"
proof -
  from assms(3) have "ps \<noteq> []" by (auto simp: valid_locations_def List.map_filter_simps)
  with assms show ?thesis
    by (simp add: updateMapBounds_effect_def calculate_bounds_def foldl_forEach_body Let_def
          foldl_max_Max foldl_min_Min)
qed

lemma in_range_Min_Max:
  assumes "vs \<noteq> []" and "\<forall>l\<in>set vs. in_geographic_range l"
  shows "min (Finite 90) (Min (fst ` set vs)) = Min (fst ` set vs)"
    and "min (Finite 180) (Min (snd ` set vs)) = Min (snd ` set vs)"
    and "max (Finite (- 90)) (Max (fst ` set vs)) = Max (fst ` set vs)"
    and "max (Finite (- 180)) (Max (snd ` set vs)) = Max (snd ` set vs)"
proof -
  from assms(1) obtain l where l: "l \<in> set vs" by (cases vs) auto
  with assms(2) have r: "Finite (- 90) \<le> fst l" "fst l \<le> Finite 90"
    "Finite (- 180) \<le> snd l" "snd l \<le> Finite 180"
    by (simp_all add: in_geographic_range_def)
  have "Min (fst ` set vs) \<le> fst l" using l by simp
  from this r(2) have "Min (fst ` set vs) \<le> Finite 90" by (rule order_trans)
  then show "min (Finite 90) (Min (fst ` set vs)) = Min (fst ` set vs)"
    by (rule min_absorb2)
  have "Min (snd ` set vs) \<le> snd l" using l by simp
  from this r(4) have "Min (snd ` set vs) \<le> Finite 180" by (rule order_trans)
  then show "min (Finite 180) (Min (snd ` set vs)) = Min (snd ` set vs)"
    by (rule min_absorb2)
  have "fst l \<le> Max (fst ` set vs)" using l by simp
  from r(1) this have "Finite (- 90) \<le> Max (fst ` set vs)" by (rule order_trans)
  then show "max (Finite (- 90)) (Max (fst ` set vs)) = Max (fst ` set vs)"
    by (rule max_absorb2)
  have "snd l \<le> Max (snd ` set vs)" using l by simp
  from r(3) this have "Finite (- 180) \<le> Max (snd ` set vs)" by (rule order_trans)
  then show "max (Finite (- 180)) (Max (snd ` set vs)) = Max (snd ` set vs)"
    by (rule max_absorb2)
qed

lemma valid_locations_filter:
  "valid_locations (filter (\<lambda>p. valid_location p \<noteq> None) ps) = valid_locations ps"
  by (induction ps) (auto simp: valid_locations_Cons split: option.splits)

text \<open>
  Claim C3, as stated, says that the computed bounds are the bounding box of the
  properties with a numeric location. The loop starts from the corner values 90, 180,
  -90 and -180, so a property with a latitude of 100 gets the south bound 90, not 100.
\<close>

theorem bounds_out_of_range_counterexample:
  "valid_locations [far_property] = [(Finite 100, Finite 0)]
   \<and> mapBounds (updateMapBounds_effect (pm_init (Some [far_property]) None True [''parcels'']))
       = Some ((Finite 90, Finite 0), (Finite 100, Finite 0))
   \<and> mapBounds (updateMapBounds_effect (pm_init (Some [far_property]) None True [''parcels'']))
       \<noteq> Some ((Finite 100, Finite 0), (Finite 100, Finite 0))"
  by (simp add: far_property_def valid_eval_defs pm_eval_defs)

text \<open>
  Claim C3, amended. When no bounds are set and the property list has at least one
  property whose \<open>location.lat\<close> and \<open>location.lng\<close> are numbers and not NaN, the
  effect sets the bounds to \<open>[[min(90, min lat), min(180, min lng)], [max(-90, max lat),
  max(-180, max lng)]]\<close>, the minima and maxima taken over exactly the properties with
  such a location. When these locations are geographic coordinates (latitude in
  \<open>[-90, 90]\<close>, longitude in \<open>[-180, 180]\<close>) this is their bounding box
  \<open>[[min lat, min lng], [max lat, max lng]]\<close>. Properties with a missing or
  non-numeric location do not change the result.
\<close>

theorem bounds_are_bounding_box:
  assumes "propertyMarkers s = Some ps" and "mapBounds s = None" and "valid_locations ps \<noteq> []"
  shows "mapBounds (updateMapBounds_effect s) =
           Some ((min (Finite 90) (Min (fst ` set (valid_locations ps))),
                  min (Finite 180) (Min (snd ` set (valid_locations ps)))),
                 (max (Finite (- 90)) (Max (fst ` set (valid_locations ps))),
                  max (Finite (- 180)) (Max (snd ` set (valid_locations ps)))))
       \<and> ((\<forall>l\<in>set (valid_locations ps). in_geographic_range l) \<longrightarrow>
            mapBounds (updateMapBounds_effect s) =
              Some ((Min (fst ` set (valid_locations ps)), Min (snd ` set (valid_locations ps))),
                    (Max (fst ` set (valid_locations ps)), Max (snd ` set (valid_locations ps)))))
       \<and> calculate_bounds ps = calculate_bounds (filter (\<lambda>p. valid_location p \<noteq> None) ps)"
proof (intro conjI impI)
  show "mapBounds (updateMapBounds_effect s) =
           Some ((min (Finite 90) (Min (fst ` set (valid_locations ps))),
                  min (Finite 180) (Min (snd ` set (valid_locations ps)))),
                 (max (Finite (- 90)) (Max (fst ` set (valid_locations ps))),
                  max (Finite (- 180)) (Max (snd ` set (valid_locations ps)))))"
    using assms by (rule updateMapBounds_effect_value)
next
  assume "\<forall>l\<in>set (valid_locations ps). in_geographic_range l"
  with assms(3) show "mapBounds (updateMapBounds_effect s) =
              Some ((Min (fst ` set (valid_locations ps)), Min (snd ` set (valid_locations ps))),
                    (Max (fst ` set (valid_locations ps)), Max (snd ` set (valid_locations ps))))"
    by (simp add: updateMapBounds_effect_value [OF assms] in_range_Min_Max)
next
  show "calculate_bounds ps = calculate_bounds (filter (\<lambda>p. valid_location p \<noteq> None) ps)"
    by (simp only: calculate_bounds_def foldl_forEach_body valid_locations_filter)
qed

theorem bounds_are_bounding_box_witness:
  "valid_locations [example_property, unlocated_property, other_property]
     = [(Finite 25, Finite 55), (Finite 24, Finite 54)]
   \<and> mapBounds (updateMapBounds_effect
         (pm_init (Some [example_property, unlocated_property, other_property]) None True [''parcels'']))
       = Some ((Finite 24, Finite 54), (Finite 25, Finite 55))"
proof -
  let ?ps = "[example_property, unlocated_property, other_property]"
  let ?s = "pm_init (Some ?ps) None True [''parcels'']"
  have v: "valid_locations ?ps = [(Finite 25, Finite 55), (Finite 24, Finite 54)]"
    by (simp add: example_property_def unlocated_property_def other_property_def valid_eval_defs)
  have a: "propertyMarkers ?s = Some ?ps" and b: "mapBounds ?s = None"
    by (simp_all add: pm_init_def)
  have c: "valid_locations ?ps \<noteq> []" using v by simp
  have d: "\<forall>l\<in>set (valid_locations ?ps). in_geographic_range l"
    using v by (simp add: in_geographic_range_def)
  from bounds_are_bounding_box [OF a b c] d v show ?thesis
    by (simp add: min_def max_def)
qed

section \<open>The bounds are written once\<close>

lemma mapBounds_frame:
  "mapBounds (fetchEmiratesBoundaries_effect s) = mapBounds s"
  "mapBounds (fetchAreasBoundaries_effect s) = mapBounds s"
  "mapBounds (loadPropertyMarkers_effect s) = mapBounds s"
  "mapBounds (loadPropertyMarkers_rerun s) = mapBounds s"
  "mapBounds (fetchGisData_effect s) = mapBounds s"
  "mapBounds (fetchPropertyGisData_effect s) = mapBounds s"
  "mapBounds (await_call c p s) = mapBounds s"
  "mapBounds (run_timer cb s) = mapBounds s"
  "mapBounds (settle p r s) = mapBounds s"
  by (cases cb; cases p; cases r; simp add: pm_effect_defs split: option.splits)+

lemma foldl_run_timer_mapBounds:
  "mapBounds (foldl (\<lambda>s (i, due, callback). run_timer callback s) s xs) = mapBounds s"
  by (induction xs arbitrary: s) (auto simp: mapBounds_frame)

lemma mapBounds_elapse: "mapBounds (elapse d s) = mapBounds s"
  by (simp add: elapse_def Let_def foldl_run_timer_mapBounds)

lemma updateMapBounds_effect_set:
  "mapBounds s = Some b \<Longrightarrow> updateMapBounds_effect s = s"
  by (simp add: updateMapBounds_effect_def split: option.splits)

lemma updateMapBounds_effect_changes:
  "mapBounds (updateMapBounds_effect s) \<noteq> mapBounds s \<Longrightarrow> mapBounds s = None"
  by (cases "mapBounds s") (simp_all add: updateMapBounds_effect_set)

lemma mapBounds_after_mapBounds:
  "mapBounds s = Some b \<Longrightarrow> mapBounds (after_mapBounds s) = Some b"
  by (simp add: after_mapBounds_def mapBounds_frame updateMapBounds_effect_set)

lemma mapBounds_after_gisInitialized:
  "mapBounds (after_gisInitialized s) = mapBounds s"
  by (simp add: after_gisInitialized_def mapBounds_frame)

lemma mapBounds_pm_step:
  "mapBounds s = Some b \<Longrightarrow> mapBounds (pm_step ev s) = Some b"
proof (cases ev)
  case (CtxPropertyMarkers pm)
  assume b: "mapBounds s = Some b"
  then have "updateMapBounds_effect (s\<lparr>propertyMarkers := pm\<rparr>) = s\<lparr>propertyMarkers := pm\<rparr>"
    by (simp add: updateMapBounds_effect_set)
  with b CtxPropertyMarkers show ?thesis by (simp add: Let_def)
next
  case (Settle request r)
  assume "mapBounds s = Some b"
  with Settle show ?thesis
    by (simp add: Let_def mapBounds_frame mapBounds_after_gisInitialized split: option.splits)
qed (simp_all add: mapBounds_frame mapBounds_elapse)

lemma mapBounds_pm_run:
  "mapBounds s = Some b \<Longrightarrow> mapBounds (pm_run evs s) = Some b"
  by (induction evs arbitrary: s) (simp_all add: mapBounds_pm_step)

text \<open>
  Claim C4. The effect that recomputes the bounds writes \<open>mapBounds\<close> only when it is
  null: when bounds are set the effect changes nothing, so a new list of property
  markers, and any further run of the component, leaves the bounds as they are; and
  whenever the effect changes \<open>mapBounds\<close>, it was null before.
\<close>

theorem bounds_written_only_when_null:
  "(mapBounds s = Some b \<longrightarrow>
      updateMapBounds_effect s = s
      \<and> mapBounds (pm_step (CtxPropertyMarkers pm) s) = Some b
      \<and> mapBounds (pm_run evs s) = Some b)
   \<and> (mapBounds (updateMapBounds_effect s) \<noteq> mapBounds s \<longrightarrow> mapBounds s = None)"
  using updateMapBounds_effect_set [of s b] mapBounds_pm_step [of s b "CtxPropertyMarkers pm"]
    mapBounds_pm_run [of s b evs] updateMapBounds_effect_changes [of s]
  by blast

theorem bounds_written_only_when_null_witness:
  "mapBounds pm_ready = Some ((Finite 25, Finite 55), (Finite 25, Finite 55))
   \<and> mapBounds (pm_step (CtxPropertyMarkers (Some [other_property, far_property])) pm_ready)
       = Some ((Finite 25, Finite 55), (Finite 25, Finite 55))
   \<and> mapBounds (updateMapBounds_effect (pm_init (Some [other_property]) None True []))
       = Some ((Finite 24, Finite 54), (Finite 24, Finite 54))
   \<and> mapBounds (pm_init (Some [other_property]) None True []) = None"
proof -
  have a: "mapBounds pm_ready = Some ((Finite 25, Finite 55), (Finite 25, Finite 55))"
    by (simp add: pm_ready_eval)
  have b: "mapBounds (updateMapBounds_effect (pm_init (Some [other_property]) None True []))
       = Some ((Finite 24, Finite 54), (Finite 24, Finite 54))"
    by (simp add: other_property_def pm_eval_defs)
  from bounds_written_only_when_null
    [of pm_ready "((Finite 25, Finite 55), (Finite 25, Finite 55))"
        "Some [other_property, far_property]" "[]"] a
  have c: "mapBounds (pm_step (CtxPropertyMarkers (Some [other_property, far_property])) pm_ready)
       = Some ((Finite 25, Finite 55), (Finite 25, Finite 55))" by simp
  from bounds_written_only_when_null
    [of "pm_init (Some [other_property]) None True []" "((Finite 25, Finite 55), (Finite 25, Finite 55))"
        None "[]"] b
  have d: "mapBounds (pm_init (Some [other_property]) None True []) = None"
    by (simp add: pm_init_def)
  from a b c d show ?thesis by simp
qed

section \<open>Requests carry the current bounds\<close>

lemma object_carries_bounds_of: "object_carries mb (bounds_of mb)"
  by (cases mb) (auto simp: bounds_of_def)

lemma json_shows_stringify: "json_shows (JSON_stringify_number x) x"
  by (cases x) simp_all

lemma text_shows_stringify: "object_carries mb b \<Longrightarrow> text_shows mb (JSON_stringify b)"
  by (cases mb) (auto simp: JSON_stringify_def json_shows_stringify)

lemma carries_bounds_None: "carries_bounds None c \<Longrightarrow> carries_bounds mb c"
  by (cases c) simp_all

lemma bounds_inv_no_timers: "bounds_inv s \<Longrightarrow> mapBounds s = None \<Longrightarrow> timers s = []"
  by (cases "timers s") (auto simp: bounds_inv_def)

lemma bounds_inv_updateMapBounds_effect:
  assumes "bounds_inv s"
  shows "bounds_inv (updateMapBounds_effect s)"
proof (cases "mapBounds s")
  case (Some b)
  with assms show ?thesis by (simp add: updateMapBounds_effect_set)
next
  case None
  with assms have t: "timers s = []" by (simp add: bounds_inv_no_timers)
  from assms None have c: "\<forall>c\<in>set (calls s). carries_bounds None c"
    by (simp add: bounds_inv_def)
  show ?thesis
    using t c assms
    by (auto simp: updateMapBounds_effect_def bounds_inv_def Let_def carries_bounds_None
          split: option.splits)
qed

lemma bounds_inv_await_call:
  "bounds_inv s \<Longrightarrow> carries_bounds (mapBounds s) c \<Longrightarrow> bounds_inv (await_call c p s)"
  by (auto simp: bounds_inv_def await_call_def)

lemma bounds_inv_run_timer:
  "bounds_inv s \<Longrightarrow> timer_carries (mapBounds s) cb \<Longrightarrow> bounds_inv (run_timer cb s)"
  by (cases cb; cases "mapBounds s")
     (auto simp: bounds_inv_def await_call_def text_shows_stringify)

lemma bounds_inv_foldl_run_timer:
  "bounds_inv s \<Longrightarrow> \<forall>t\<in>set xs. timer_carries (mapBounds s) (snd (snd t)) \<Longrightarrow>
   bounds_inv (foldl (\<lambda>s (i, due, callback). run_timer callback s) s xs)"
proof (induction xs arbitrary: s)
  case Nil
  then show ?case by simp
next
  case (Cons x xs)
  obtain i due cb where x: "x = (i, due, cb)" by (cases x)
  from Cons.prems x have "bounds_inv (run_timer cb s)" by (simp add: bounds_inv_run_timer)
  moreover from Cons.prems have "\<forall>t\<in>set xs. timer_carries (mapBounds (run_timer cb s)) (snd (snd t))"
    by (simp add: mapBounds_frame)
  ultimately show ?case using Cons.IH x by simp
qed

lemma bounds_inv_elapse: "bounds_inv s \<Longrightarrow> bounds_inv (elapse d s)"
proof -
  assume inv: "bounds_inv s"
  let ?t = "now s + d"
  let ?s1 = "s\<lparr>now := ?t, timers := filter (\<lambda>(i, due, callback). \<not> due \<le> ?t) (timers s)\<rparr>"
  let ?due = "sort_key (\<lambda>(i, due, callback). due) (filter (\<lambda>(i, due, callback). due \<le> ?t) (timers s))"
  from inv have "bounds_inv ?s1" by (auto simp: bounds_inv_def)
  moreover from inv have "\<forall>t\<in>set ?due. timer_carries (mapBounds ?s1) (snd (snd t))"
    by (auto simp: bounds_inv_def)
  ultimately have "bounds_inv (foldl (\<lambda>s (i, due, callback). run_timer callback s) ?s1 ?due)"
    by (rule bounds_inv_foldl_run_timer)
  then show ?thesis by (simp add: elapse_def Let_def)
qed

lemma bounds_inv_effects:
  assumes "bounds_inv s"
  shows "bounds_inv (fetchEmiratesBoundaries_effect s)"
    and "bounds_inv (fetchAreasBoundaries_effect s)"
    and "bounds_inv (loadPropertyMarkers_effect s)"
    and "bounds_inv (loadPropertyMarkers_rerun s)"
    and "bounds_inv (fetchGisData_effect s)"
    and "bounds_inv (fetchPropertyGisData_effect s)"
    and "bounds_inv (settle p r s)"
  using assms
  by (cases p; cases r;
      auto simp: bounds_inv_def pm_effect_defs object_carries_bounds_of split: option.splits)+

lemma bounds_inv_field_updates:
  assumes "bounds_inv s"
  shows "bounds_inv (s\<lparr>propertyMarkers := pm\<rparr>)"
    and "bounds_inv (s\<lparr>loadPropertyMarkers := f\<rparr>)"
    and "bounds_inv (s\<lparr>propertyDetails := pd\<rparr>)"
    and "bounds_inv (s\<lparr>enabledGisLayers := ls\<rparr>)"
    and "bounds_inv (s\<lparr>pm_showEmirates := b\<rparr>)"
    and "bounds_inv (s\<lparr>pm_showAreas := b\<rparr>)"
    and "bounds_inv (s\<lparr>pm_currentEmirate := e\<rparr>)"
    and "bounds_inv (s\<lparr>pm_currentEmirate := e, pm_showAreas := b\<rparr>)"
    and "bounds_inv (s\<lparr>inflight := fl\<rparr>)"
  using assms by (simp_all add: bounds_inv_def)

lemma bounds_inv_after_mapBounds: "bounds_inv s \<Longrightarrow> bounds_inv (after_mapBounds s)"
  by (simp add: after_mapBounds_def bounds_inv_effects bounds_inv_updateMapBounds_effect)

lemma bounds_inv_after_gisInitialized: "bounds_inv s \<Longrightarrow> bounds_inv (after_gisInitialized s)"
  by (simp add: after_gisInitialized_def bounds_inv_effects)

lemma bounds_inv_pm_step: "bounds_inv s \<Longrightarrow> bounds_inv (pm_step ev s)"
  by (cases ev)
     (simp_all add: Let_def bounds_inv_effects bounds_inv_updateMapBounds_effect
        bounds_inv_field_updates bounds_inv_after_mapBounds bounds_inv_after_gisInitialized
        bounds_inv_elapse split: option.splits)

lemma bounds_inv_pm_run: "bounds_inv s \<Longrightarrow> bounds_inv (pm_run evs s)"
  by (induction evs arbitrary: s) (simp_all add: bounds_inv_pm_step)

lemma bounds_inv_pm_mount: "bounds_inv (pm_mount (pm_init markers details loadFn layers))"
proof -
  have "bounds_inv (pm_init markers details loadFn layers)"
    by (simp add: bounds_inv_def pm_init_def)
  then have "bounds_inv (await_call Initialize PInitialize (pm_init markers details loadFn layers))"
    by (simp add: bounds_inv_await_call)
  then show ?thesis
    by (simp add: pm_mount_def Let_def bounds_inv_effects bounds_inv_updateMapBounds_effect
          bounds_inv_after_mapBounds)
qed

lemma calls_carry_bounds:
  "c \<in> set (calls (pm_run evs (pm_mount (pm_init markers details loadFn layers)))) \<Longrightarrow>
   carries_bounds (mapBounds (pm_run evs (pm_mount (pm_init markers details loadFn layers)))) c"
  using bounds_inv_pm_run [OF bounds_inv_pm_mount, of evs markers details loadFn layers]
  by (simp add: bounds_inv_def)

text \<open>
  Claim C7, as stated, says that the marker request sends exactly the four bounds
  taken from \<open>mapBounds\<close>. The request sends \<open>JSON.stringify(bounds)\<close>, and a bound
  that is infinite is written as \<open>null\<close>: with one property whose latitude is
  \<open>Infinity\<close> the bounds are \<open>[[90, 55], [Infinity, 55]]\<close> and the text of the
  request has \<open>north\<close> null, while the call of \<open>getLayers\<close> has the object itself.
\<close>

theorem marker_request_infinite_bound_counterexample:
  "mapBounds pm_infinite = Some ((Finite 90, Finite 55), (PosInfinity, Finite 55))
   \<and> calls pm_infinite =
       [Initialize,
        LoadPropertyMarkers
          \<lparr>json_south = JsonNumber 90, json_west = JsonNumber 55,
           json_north = JsonNull, json_east = JsonNumber 55\<rparr> 100,
        GetLayers \<lparr>south = Finite 90, west = Finite 55, north = PosInfinity, east = Finite 55\<rparr>
          [''parcels'']]"
  by (simp add: pm_infinite_def pm_eval_defs infinite_property_def)

text \<open>
  Claim C7, amended. Every request that depends on the bounds carries the current
  viewport bounding box. In the Leaflet map, at every moment of every run from the
  mount, with the current \<open>mapBounds\<close> being \<open>[[south, west], [north, east]]\<close>: each
  call made so far of \<open>loadPropertyMarkers\<close> has the limit 100 and as its \<open>bounds\<close>
  the JSON text of \<open>{south, west, north, east}\<close>, in which a finite bound is written as
  its number and an infinite bound as null, so that with four finite bounds the text
  holds exactly \<open>south = mapBounds[0][0]\<close>, \<open>west = mapBounds[0][1]\<close>,
  \<open>north = mapBounds[1][0]\<close> and \<open>east = mapBounds[1][1]\<close>; and each call of
  \<open>getLayers\<close> has the object with these four values. In the Google map, a pass of
  \<open>loadGisLayers\<close> sends, for each enabled layer type, the bounding box built from the
  north-east and south-west corners of the map's bounds.
\<close>

theorem requests_carry_current_bounds:
  "(c \<in> set (calls (pm_run evs (pm_mount (pm_init markers details loadFn layers)))) \<longrightarrow>
      carries_bounds (mapBounds (pm_run evs (pm_mount (pm_init markers details loadFn layers)))) c)
   \<and> (LoadPropertyMarkers j limit
          \<in> set (calls (pm_run evs (pm_mount (pm_init markers details loadFn layers))))
        \<and> mapBounds (pm_run evs (pm_mount (pm_init markers details loadFn layers)))
            = Some ((Finite so, Finite we), (Finite no, Finite ea)) \<longrightarrow>
      j = \<lparr>json_south = JsonNumber so, json_west = JsonNumber we,
           json_north = JsonNumber no, json_east = JsonNumber ea\<rparr>
      \<and> limit = 100)
   \<and> (GetLayers b requested
          \<in> set (calls (pm_run evs (pm_mount (pm_init markers details loadFn layers))))
        \<and> mapBounds (pm_run evs (pm_mount (pm_init markers details loadFn layers)))
            = Some ((s0, w0), (n0, e0)) \<longrightarrow>
      b = \<lparr>south = s0, west = w0, north = n0, east = e0\<rparr>)
   \<and> (mapRef g = Some (Some bounds) \<longrightarrow>
        gisRequests (loadGisLayers svc g) =
          gisRequests g @
          map (\<lambda>t. (t, \<lparr>bb_north = fst (getNorthEast bounds), bb_east = snd (getNorthEast bounds),
                         bb_south = fst (getSouthWest bounds), bb_west = snd (getSouthWest bounds)\<rparr>))
            (filter (\<lambda>t. t \<in> set (enabledLayers g)) layerTypes))"
proof (intro conjI impI)
  assume "c \<in> set (calls (pm_run evs (pm_mount (pm_init markers details loadFn layers))))"
  then show "carries_bounds (mapBounds (pm_run evs (pm_mount (pm_init markers details loadFn layers)))) c"
    by (rule calls_carry_bounds)
next
  assume a: "LoadPropertyMarkers j limit
          \<in> set (calls (pm_run evs (pm_mount (pm_init markers details loadFn layers))))
        \<and> mapBounds (pm_run evs (pm_mount (pm_init markers details loadFn layers)))
            = Some ((Finite so, Finite we), (Finite no, Finite ea))"
  with calls_carry_bounds [of "LoadPropertyMarkers j limit" evs markers details loadFn layers]
  have "text_shows ((Finite so, Finite we), (Finite no, Finite ea)) j \<and> limit = 100" by simp
  then show "j = \<lparr>json_south = JsonNumber so, json_west = JsonNumber we,
           json_north = JsonNumber no, json_east = JsonNumber ea\<rparr>"
    and "limit = 100"
    by (cases j, simp, simp)
next
  assume a: "GetLayers b requested
          \<in> set (calls (pm_run evs (pm_mount (pm_init markers details loadFn layers))))
        \<and> mapBounds (pm_run evs (pm_mount (pm_init markers details loadFn layers)))
            = Some ((s0, w0), (n0, e0))"
  with calls_carry_bounds [of "GetLayers b requested" evs markers details loadFn layers]
  have "object_carries ((s0, w0), (n0, e0)) b" by simp
  then show "b = \<lparr>south = s0, west = w0, north = n0, east = e0\<rparr>"
    by (cases b) simp
next
  assume "mapRef g = Some (Some bounds)"
  then show "gisRequests (loadGisLayers svc g) =
          gisRequests g @
          map (\<lambda>t. (t, \<lparr>bb_north = fst (getNorthEast bounds), bb_east = snd (getNorthEast bounds),
                         bb_south = fst (getSouthWest bounds), bb_west = snd (getSouthWest bounds)\<rparr>))
            (filter (\<lambda>t. t \<in> set (enabledLayers g)) layerTypes)"
    by (simp add: loadGisLayers_def loadGisLayers_loop_requests)
qed

theorem requests_carry_current_bounds_witness:
  "mapBounds pm_two = Some ((Finite 24, Finite 54), (Finite 25, Finite 55))
   \<and> LoadPropertyMarkers
        \<lparr>json_south = JsonNumber 24, json_west = JsonNumber 54,
         json_north = JsonNumber 25, json_east = JsonNumber 55\<rparr> 100 \<in> set (calls pm_two)
   \<and> GetLayers \<lparr>south = Finite 24, west = Finite 54, north = Finite 25, east = Finite 55\<rparr>
        [''parcels''] \<in> set (calls pm_two)
   \<and> (\<forall>j limit. LoadPropertyMarkers j limit \<in> set (calls pm_two) \<longleftrightarrow>
         j = \<lparr>json_south = JsonNumber 24, json_west = JsonNumber 54,
              json_north = JsonNumber 25, json_east = JsonNumber 55\<rparr> \<and> limit = 100)
   \<and> (\<forall>b requested. GetLayers b requested \<in> set (calls pm_two) \<longleftrightarrow>
         b = \<lparr>south = Finite 24, west = Finite 54, north = Finite 25, east = Finite 55\<rparr>
         \<and> requested = [''parcels''])
   \<and> mapRef (gm_ready\<lparr>enabledLayers := [''zoning'', ''parcels'']\<rparr>) = Some (Some example_map)
   \<and> gisRequests (loadGisLayers example_service (gm_ready\<lparr>enabledLayers := [''zoning'', ''parcels'']\<rparr>))
       = [(''parcels'', example_box), (''zoning'', example_box)]"
proof -
  let ?evs = "[Settle 0 (Inr Null), CtxPropertyMarkers (Some [example_property, other_property]),
               Elapse 1000]"
  let ?g = "gm_ready\<lparr>enabledLayers := [''zoning'', ''parcels'']\<rparr>"
  let ?j = "\<lparr>json_south = JsonNumber 24, json_west = JsonNumber 54,
             json_north = JsonNumber 25, json_east = JsonNumber 55\<rparr>"
  let ?b = "\<lparr>south = Finite 24, west = Finite 54, north = Finite 25, east = Finite 55\<rparr>"
  have run: "pm_run ?evs (pm_mount (pm_init None None True [''parcels''])) = pm_two"
    by (simp add: pm_two_def)
  have m: "mapBounds pm_two = Some ((Finite 24, Finite 54), (Finite 25, Finite 55))"
    and c: "calls pm_two = [Initialize, LoadPropertyMarkers ?j 100, GetLayers ?b [''parcels'']]"
    using pm_two_calls by simp_all
  have g: "mapRef ?g = Some (Some example_map)" and q: "gisRequests ?g = []"
    by (simp_all add: gm_ready_eval)
  from requests_carry_current_bounds
    [of "LoadPropertyMarkers ?j 100" ?evs None None True "[''parcels'']" ?j 100 24 54 25 55
        ?b "[''parcels'']" "Finite 24" "Finite 54" "Finite 25" "Finite 55" ?g example_map example_service]
    run m c g q
  have 3: "gisRequests (loadGisLayers example_service ?g)
       = [(''parcels'', example_box), (''zoning'', example_box)]"
    by (simp add: layerTypes_def example_map_def example_box_def)
  from m c g 3 show ?thesis by auto
qed

section \<open>The timers of the two bounds-based fetches\<close>

text \<open>
  Neither effect calls the service when it runs: each starts a timer, due 300 ms (the
  markers) or 500 ms (the GIS layers) later. When the marker effect runs again, the
  timer of its previous run is cleared; the timers of the GIS effect all stay.
\<close>

lemma calls_not_immediate:
  "calls (loadPropertyMarkers_rerun s) = calls s"
  "calls (fetchGisData_effect s) = calls s"
  by (simp_all add: pm_effect_defs split: option.splits)

lemma marker_timer_delay:
  "x \<in> set (timers (loadPropertyMarkers_rerun s)) \<Longrightarrow> x \<notin> set (timers s) \<Longrightarrow>
   fst (snd x) = now s + 300"
  by (auto simp: pm_effect_defs split: option.splits if_splits)

lemma gis_timer_delay:
  "x \<in> set (timers (fetchGisData_effect s)) \<Longrightarrow> x \<notin> set (timers s) \<Longrightarrow>
   fst (snd x) = now s + 500"
  by (auto simp: pm_effect_defs split: option.splits if_splits)

lemma marker_timer_cancelled:
  "marker_cleanup s = Some t \<Longrightarrow> x \<in> set (timers (loadPropertyMarkers_rerun s)) \<Longrightarrow>
   fst x = t \<Longrightarrow> fst x = next_timer s"
  by (auto simp: pm_effect_defs split: option.splits if_splits)

lemma gis_timer_kept:
  "set (timers s) \<subseteq> set (timers (fetchGisData_effect s))"
  by (auto simp: pm_effect_defs split: option.splits)

text \<open>
  Claim C2 says that the timers debounce the fetches, so that at most one fetch is
  issued per settled bounds value. For the GIS layers the code does otherwise: the
  function that clears the timer is returned by the async function \<open>fetchGisData\<close>
  and not by the effect, so no timer of this effect is ever cleared. With the bounds
  settled, the effect runs at 0 ms and again at 100 ms (the parent passes a new list of
  enabled layers); both timers fire, and two \<open>getLayers\<close> calls go out for the same
  bounds, the first one for the superseded list.
\<close>

theorem gis_timer_not_cancelled:
  "calls (pm_run [Elapse 100, PropEnabledGisLayers [''parcels'', ''zoning''], Elapse 1000] pm_ready)
     = [Initialize, LoadPropertyMarkers (JSON_stringify example_bounds) 100,
        GetLayers example_bounds [''parcels''],
        GetLayers example_bounds [''parcels'', ''zoning'']]"
  using pm_overlapping_eval by (simp add: pm_overlapping_def)

theorem gis_timer_not_cancelled_witness:
  "length (filter (is_layers_call_for example_bounds)
     (calls (pm_run [Elapse 100, PropEnabledGisLayers [''parcels'', ''zoning''], Elapse 1000] pm_ready)))
   = 2"
  using gis_timer_not_cancelled by simp

section \<open>Responses that arrive out of order\<close>

lemma map_of_filter_other:
  "map_of (filter (\<lambda>(i, q). i \<noteq> r) xs) k = (if k = r then None else map_of xs k)"
  by (induction xs) auto

lemma inflight_frame:
  "set (inflight s) \<subseteq> set (inflight (fetchEmiratesBoundaries_effect s))"
  "set (inflight s) \<subseteq> set (inflight (fetchAreasBoundaries_effect s))"
  "set (inflight s) \<subseteq> set (inflight (loadPropertyMarkers_rerun s))"
  "set (inflight s) \<subseteq> set (inflight (fetchGisData_effect s))"
  "set (inflight s) \<subseteq> set (inflight (fetchPropertyGisData_effect s))"
  "set (inflight s) \<subseteq> set (inflight (updateMapBounds_effect s))"
  "set (inflight s) \<subseteq> set (inflight (run_timer cb s))"
  "inflight (settle p r s) = inflight s"
  by (cases cb; cases p; cases r;
      auto simp: pm_effect_defs updateMapBounds_effect_def Let_def split: option.splits)+

lemma inflight_foldl_run_timer:
  "set (inflight s) \<subseteq> set (inflight (foldl (\<lambda>s (i, due, callback). run_timer callback s) s xs))"
proof (induction xs arbitrary: s)
  case Nil
  then show ?case by simp
next
  case (Cons x xs)
  obtain i due cb where x: "x = (i, due, cb)" by (cases x)
  have "set (inflight s) \<subseteq> set (inflight (run_timer cb s))" by (rule inflight_frame)
  also have "\<dots> \<subseteq> set (inflight (foldl (\<lambda>s (i, due, callback). run_timer callback s) (run_timer cb s) xs))"
    by (rule Cons.IH)
  finally show ?case using x by simp
qed

lemma inflight_elapse: "set (inflight s) \<subseteq> set (inflight (elapse d s))"
  using inflight_foldl_run_timer
    [of "s\<lparr>now := now s + d, timers := filter (\<lambda>(i, due, callback). \<not> due \<le> now s + d) (timers s)\<rparr>"]
  by (simp add: elapse_def Let_def)

lemma inflight_after_mapBounds: "set (inflight s) \<subseteq> set (inflight (after_mapBounds s))"
  unfolding after_mapBounds_def
  using inflight_frame(3) [of s] inflight_frame(6) [of "loadPropertyMarkers_rerun s"]
    inflight_frame(4) [of "updateMapBounds_effect (loadPropertyMarkers_rerun s)"]
  by blast

lemma inflight_after_gisInitialized: "set (inflight s) \<subseteq> set (inflight (after_gisInitialized s))"
  unfolding after_gisInitialized_def
  using inflight_frame(1) [of s] inflight_frame(2) [of "fetchEmiratesBoundaries_effect s"]
    inflight_frame(4) [of "fetchAreasBoundaries_effect (fetchEmiratesBoundaries_effect s)"]
    inflight_frame(5) [of "fetchGisData_effect (fetchAreasBoundaries_effect (fetchEmiratesBoundaries_effect s))"]
  by blast

lemma inflight_pm_step:
  assumes "x \<in> set (inflight s)" and "\<forall>r. ev \<noteq> Settle (fst x) r"
  shows "x \<in> set (inflight (pm_step ev s))"
proof (cases ev)
  case (CtxPropertyMarkers pm)
  with assms(1) inflight_frame(6) [of "s\<lparr>propertyMarkers := pm\<rparr>"]
    inflight_after_mapBounds [of "updateMapBounds_effect (s\<lparr>propertyMarkers := pm\<rparr>)"]
  show ?thesis by (auto simp: Let_def)
next
  case (CtxLoadPropertyMarkers f)
  with assms(1) inflight_frame(3) [of "s\<lparr>loadPropertyMarkers := f\<rparr>"] show ?thesis by auto
next
  case (CtxPropertyDetails pd)
  with assms(1) inflight_frame(5) [of "s\<lparr>propertyDetails := pd\<rparr>"] show ?thesis by auto
next
  case (PropEnabledGisLayers ls)
  with assms(1) inflight_frame(4) [of "s\<lparr>enabledGisLayers := ls\<rparr>"] show ?thesis by auto
next
  case (SetShowEmirates b)
  with assms(1) inflight_frame(1) [of "s\<lparr>pm_showEmirates := b\<rparr>"] show ?thesis by auto
next
  case (SetShowAreas b)
  with assms(1) inflight_frame(2) [of "s\<lparr>pm_showAreas := b\<rparr>"] show ?thesis by auto
next
  case (SetCurrentEmirate e)
  with assms(1) inflight_frame(2) [of "s\<lparr>pm_currentEmirate := e\<rparr>"] show ?thesis by auto
next
  case (ShowAreasForEmirate e)
  with assms(1) inflight_frame(2) [of "s\<lparr>pm_currentEmirate := e, pm_showAreas := True\<rparr>"]
  show ?thesis by auto
next
  case (Elapse d)
  with assms(1) inflight_elapse [of s d] show ?thesis by auto
next
  case (Settle request r)
  with assms(2) have ne: "fst x \<noteq> request" by auto
  show ?thesis
  proof (cases "map_of (inflight s) request")
    case None
    with Settle assms(1) show ?thesis by simp
  next
    case (Some p)
    let ?s1 = "settle p r (s\<lparr>inflight := filter (\<lambda>(i, q). i \<noteq> request) (inflight s)\<rparr>)"
    from assms(1) ne have "x \<in> set (inflight ?s1)"
      by (auto simp: inflight_frame(8))
    with inflight_after_gisInitialized [of ?s1] Settle Some show ?thesis
      by (auto simp: Let_def)
  qed
qed

lemma settle_layers_step:
  "map_of (inflight s) r = Some PLayers \<Longrightarrow>
   pm_step (Settle r (Inr d)) s =
     s\<lparr>inflight := filter (\<lambda>(i, q). i \<noteq> r) (inflight s), gisLayers := d, gisLoading := False\<rparr>"
  by (simp add: Let_def)

text \<open>
  Claim C8. A service call that has been issued is never cancelled: a pending promise
  stays pending under every event of the component but its own settling. And the
  answer of \<open>getLayers\<close> is stored as it arrives: of two pending calls, the one
  that is answered last determines \<open>gisLayers\<close>, whichever was issued first.
\<close>

theorem no_cancellation_last_response_wins:
  "((request, p) \<in> set (inflight s) \<and> (\<forall>r. ev \<noteq> Settle request r)
      \<longrightarrow> (request, p) \<in> set (inflight (pm_step ev s)))
   \<and> (map_of (inflight s) r1 = Some PLayers \<and> map_of (inflight s) r2 = Some PLayers \<and> r1 \<noteq> r2
      \<longrightarrow> gisLayers (pm_run [Settle r2 (Inr d2), Settle r1 (Inr d1)] s) = d1)"
proof (intro conjI impI)
  assume "(request, p) \<in> set (inflight s) \<and> (\<forall>r. ev \<noteq> Settle request r)"
  then show "(request, p) \<in> set (inflight (pm_step ev s))"
    using inflight_pm_step [of "(request, p)" s ev] by simp
next
  assume a: "map_of (inflight s) r1 = Some PLayers \<and> map_of (inflight s) r2 = Some PLayers \<and> r1 \<noteq> r2"
  let ?s2 = "pm_step (Settle r2 (Inr d2)) s"
  from a have s2: "?s2 = s\<lparr>inflight := filter (\<lambda>(i, q). i \<noteq> r2) (inflight s), gisLayers := d2, gisLoading := False\<rparr>"
    by (simp add: settle_layers_step)
  with a have "map_of (inflight ?s2) r1 = Some PLayers"
    by (simp add: map_of_filter_other)
  then have "gisLayers (pm_step (Settle r1 (Inr d1)) ?s2) = d1"
    by (simp add: settle_layers_step)
  then show "gisLayers (pm_run [Settle r2 (Inr d2), Settle r1 (Inr d1)] s) = d1" by simp
qed

theorem no_cancellation_last_response_wins_witness:
  "map_of (inflight pm_overlapping) 1 = Some PLayers
   \<and> map_of (inflight pm_overlapping) 2 = Some PLayers
   \<and> (1, PLayers) \<in> set (inflight (pm_step (PropEnabledGisLayers [''parcels'']) pm_overlapping))
   \<and> gisLayers (pm_run [Settle 2 (Inr fresh_layers), Settle 1 (Inr stale_layers)] pm_overlapping)
       = stale_layers"
proof -
  have a: "map_of (inflight pm_overlapping) 1 = Some PLayers"
    and b: "map_of (inflight pm_overlapping) 2 = Some PLayers"
    and c: "(1, PLayers) \<in> set (inflight pm_overlapping)"
    by (simp_all add: pm_overlapping_eval)
  have d: "\<forall>r. PropEnabledGisLayers [''parcels''] \<noteq> Settle 1 r" by simp
  from no_cancellation_last_response_wins
    [of 1 PLayers pm_overlapping "PropEnabledGisLayers [''parcels'']" 1 2 fresh_layers stale_layers]
    a b c d
  show ?thesis by simp
qed

section \<open>Rejected fetches\<close>

lemma settle_rejection_step:
  "map_of (inflight s) request = Some p \<Longrightarrow>
   pm_step (Settle request (Inl err)) s =
     settle p (Inl err) (s\<lparr>inflight := filter (\<lambda>(i, q). i \<noteq> request) (inflight s)\<rparr>)"
  by (cases p) (simp_all add: Let_def)

lemma loadGisLayers_loop_console_mono:
  "set (console_error s) \<subseteq> set (console_error (loadGisLayers_loop svc bb ts s))"
proof (induction ts arbitrary: s)
  case Nil
  then show ?case by simp
next
  case (Cons t ts)
  show ?case
    using Cons.IH [of "s\<lparr>gisLayersRef := (gisLayersRef s)(t := None)\<rparr>"]
      Cons.IH [of "s\<lparr>gisLayersRef := (gisLayersRef s)(t := None),
                   gisRequests := gisRequests s @ [(t, bb)],
                   console_error := console_error s @ [(''Error loading '' @ t @ '' layer:'', e)]\<rparr>" for e]
      Cons.IH [of "s\<lparr>gisLayersRef := (gisLayersRef s)(t := None),
                   gisRequests := gisRequests s @ [(t, bb)],
                   gisLayersRef := ((gisLayersRef s)(t := None))(t \<mapsto> fs)\<rparr>" for fs]
    by (auto simp: Let_def split: sum.splits)
qed

lemma loadGisLayers_loop_console:
  "t \<in> set ts \<Longrightarrow> t \<in> set (enabledLayers s) \<Longrightarrow> svc t bb = Inl err \<Longrightarrow>
   (''Error loading '' @ t @ '' layer:'', err) \<in> set (console_error (loadGisLayers_loop svc bb ts s))"
proof (induction ts arbitrary: s)
  case Nil
  then show ?case by simp
next
  case (Cons a ts)
  show ?case
  proof (cases "t = a")
    case True
    let ?s3 = "s\<lparr>gisLayersRef := (gisLayersRef s)(a := None),
                 gisRequests := gisRequests s @ [(a, bb)],
                 console_error := console_error s @ [(''Error loading '' @ a @ '' layer:'', err)]\<rparr>"
    have "(''Error loading '' @ a @ '' layer:'', err) \<in> set (console_error ?s3)" by simp
    with loadGisLayers_loop_console_mono [of ?s3 svc bb ts]
    have "(''Error loading '' @ a @ '' layer:'', err)
            \<in> set (console_error (loadGisLayers_loop svc bb ts ?s3))"
      by blast
    with True Cons.prems show ?thesis by (simp add: Let_def)
  next
    case False
    with Cons.prems have "t \<in> set ts" by simp
    with Cons.IH Cons.prems show ?thesis
      by (auto simp: Let_def split: sum.splits)
  qed
qed

text \<open>
  Claim C1, as stated, says that every rejected fetch puts its panel into an error
  state with an inline message. The effect that fetches the GIS data of the selected
  property catches the rejection, logs it and resets the data to null: it stores no
  message.
\<close>

theorem property_gis_rejection_counterexample:
  "map_of (inflight pm_fetching) 3 = Some PPropertyGis
   \<and> gisError (pm_step (Settle 3 (Inl ''timeout'')) pm_fetching) = None
   \<and> propertyGisData (pm_step (Settle 3 (Inl ''timeout'')) pm_fetching) = Null
   \<and> pm_console_error (pm_step (Settle 3 (Inl ''timeout'')) pm_fetching)
       = [(''Error fetching property GIS data:'', ''timeout'')]"
  by (simp add: pm_fetching_eval Let_def)

text \<open>
  Claim C1, amended. When the service call of the emirates-boundary fetch or of the
  area-boundary fetch of the Leaflet map rejects, the error is caught inside the effect,
  logged with \<open>console.error\<close>, and the message \<open>Failed to load emirates boundaries\<close>,
  or \<open>Failed to load area boundaries for\<close> followed by the emirate, is stored in
  \<open>gisError\<close>; when the call of the property-GIS fetch rejects, the error is caught
  and logged, the property GIS data are reset to null and \<open>gisError\<close> is left as it
  is; in none of the three a rejection is left unhandled. When a call of the layer loop
  of the Google map rejects, the error is caught and logged, and the layer gets no
  overlay.
\<close>

theorem fetch_rejections_caught:
  "(map_of (inflight s) request = Some PEmirates \<longrightarrow>
      gisError (pm_step (Settle request (Inl err)) s) = Some ''Failed to load emirates boundaries''
      \<and> pm_console_error (pm_step (Settle request (Inl err)) s)
          = pm_console_error s @ [(''Error fetching emirates boundaries:'', err)]
      \<and> unhandled_rejections (pm_step (Settle request (Inl err)) s) = unhandled_rejections s)
   \<and> (map_of (inflight s) request = Some (PAreas emirate) \<longrightarrow>
      gisError (pm_step (Settle request (Inl err)) s)
        = Some (''Failed to load area boundaries for '' @ emirate)
      \<and> pm_console_error (pm_step (Settle request (Inl err)) s)
          = pm_console_error s @ [(''Error fetching area boundaries for '' @ emirate @ '':'', err)]
      \<and> unhandled_rejections (pm_step (Settle request (Inl err)) s) = unhandled_rejections s)
   \<and> (map_of (inflight s) request = Some PPropertyGis \<longrightarrow>
      propertyGisData (pm_step (Settle request (Inl err)) s) = Null
      \<and> gisError (pm_step (Settle request (Inl err)) s) = gisError s
      \<and> pm_console_error (pm_step (Settle request (Inl err)) s)
          = pm_console_error s @ [(''Error fetching property GIS data:'', err)]
      \<and> unhandled_rejections (pm_step (Settle request (Inl err)) s) = unhandled_rejections s)
   \<and> (layerType \<in> set layerTypes \<and> layerType \<in> set (enabledLayers g)
        \<and> svc layerType boundingBox = Inl err \<longrightarrow>
      gisLayersRef (loadGisLayers_loop svc boundingBox layerTypes g) layerType = None
      \<and> (''Error loading '' @ layerType @ '' layer:'', err)
          \<in> set (console_error (loadGisLayers_loop svc boundingBox layerTypes g)))"
proof -
  have leaflet:
    "map_of (inflight s) request = Some p \<Longrightarrow>
     pm_step (Settle request (Inl err)) s =
       settle p (Inl err) (s\<lparr>inflight := filter (\<lambda>(i, q). i \<noteq> request) (inflight s)\<rparr>)" for p
    by (rule settle_rejection_step)
  have google:
    "layerType \<in> set layerTypes \<and> layerType \<in> set (enabledLayers g)
        \<and> svc layerType boundingBox = Inl err \<longrightarrow>
      gisLayersRef (loadGisLayers_loop svc boundingBox layerTypes g) layerType = None
      \<and> (''Error loading '' @ layerType @ '' layer:'', err)
          \<in> set (console_error (loadGisLayers_loop svc boundingBox layerTypes g))"
    using loadGisLayers_loop_ref [OF distinct_layerTypes, of layerType svc boundingBox g]
      loadGisLayers_loop_console [of layerType layerTypes g svc boundingBox err]
    by auto
  from google show ?thesis by (simp add: leaflet)
qed

theorem fetch_rejections_caught_witness:
  "map_of (inflight pm_fetching) 1 = Some PEmirates
   \<and> gisError (pm_step (Settle 1 (Inl ''timeout'')) pm_fetching)
       = Some ''Failed to load emirates boundaries''
   \<and> pm_console_error (pm_step (Settle 1 (Inl ''timeout'')) pm_fetching)
       = [(''Error fetching emirates boundaries:'', ''timeout'')]
   \<and> map_of (inflight pm_fetching) 2 = Some (PAreas ''Dubai'')
   \<and> gisError (pm_step (Settle 2 (Inl ''timeout'')) pm_fetching)
       = Some ''Failed to load area boundaries for Dubai''
   \<and> pm_console_error (pm_step (Settle 2 (Inl ''timeout'')) pm_fetching)
       = [(''Error fetching area boundaries for Dubai:'', ''timeout'')]
   \<and> map_of (inflight pm_fetching) 3 = Some PPropertyGis
   \<and> propertyGisData (pm_step (Settle 3 (Inl ''timeout'')) pm_fetching) = Null
   \<and> pm_console_error (pm_step (Settle 3 (Inl ''timeout'')) pm_fetching)
       = [(''Error fetching property GIS data:'', ''timeout'')]
   \<and> unhandled_rejections (pm_step (Settle 3 (Inl ''timeout'')) pm_fetching) = []
   \<and> gisLayersRef (loadGisLayers_loop failing_service example_box layerTypes
         (gm_ready\<lparr>enabledLayers := [''zoning'']\<rparr>)) ''zoning'' = None
   \<and> (''Error loading zoning layer:'', ''service unavailable'')
       \<in> set (console_error (loadGisLayers_loop failing_service example_box layerTypes
             (gm_ready\<lparr>enabledLayers := [''zoning'']\<rparr>)))"
proof -
  have a: "map_of (inflight pm_fetching) 1 = Some PEmirates"
    and b: "map_of (inflight pm_fetching) 2 = Some (PAreas ''Dubai'')"
    and c: "map_of (inflight pm_fetching) 3 = Some PPropertyGis"
    and u: "unhandled_rejections pm_fetching = []"
    and l: "pm_console_error pm_fetching = []"
    by (simp_all add: pm_fetching_eval)
  have d: "''zoning'' \<in> set layerTypes
        \<and> ''zoning'' \<in> set (enabledLayers (gm_ready\<lparr>enabledLayers := [''zoning'']\<rparr>))
        \<and> failing_service ''zoning'' example_box = Inl ''service unavailable''"
    by (simp add: layerTypes_def failing_service_def)
  from fetch_rejections_caught [of pm_fetching 1 "''timeout''" "''Dubai''"] a l
  have 1: "gisError (pm_step (Settle 1 (Inl ''timeout'')) pm_fetching)
       = Some ''Failed to load emirates boundaries''
     \<and> pm_console_error (pm_step (Settle 1 (Inl ''timeout'')) pm_fetching)
       = [(''Error fetching emirates boundaries:'', ''timeout'')]" by simp
  from fetch_rejections_caught [of pm_fetching 2 "''timeout''" "''Dubai''"] b l
  have 2: "gisError (pm_step (Settle 2 (Inl ''timeout'')) pm_fetching)
       = Some ''Failed to load area boundaries for Dubai''
     \<and> pm_console_error (pm_step (Settle 2 (Inl ''timeout'')) pm_fetching)
       = [(''Error fetching area boundaries for Dubai:'', ''timeout'')]" by simp
  from fetch_rejections_caught [of pm_fetching 3 "''timeout''" "''Dubai''"] c u l
  have 3: "propertyGisData (pm_step (Settle 3 (Inl ''timeout'')) pm_fetching) = Null
     \<and> pm_console_error (pm_step (Settle 3 (Inl ''timeout'')) pm_fetching)
       = [(''Error fetching property GIS data:'', ''timeout'')]
     \<and> unhandled_rejections (pm_step (Settle 3 (Inl ''timeout'')) pm_fetching) = []" by simp
  from fetch_rejections_caught
    [of pm_fetching 1 "''service unavailable''" "''Dubai''" "''zoning''"
        "gm_ready\<lparr>enabledLayers := [''zoning'']\<rparr>" failing_service example_box] d
  have 4: "gisLayersRef (loadGisLayers_loop failing_service example_box layerTypes
         (gm_ready\<lparr>enabledLayers := [''zoning'']\<rparr>)) ''zoning'' = None
   \<and> (''Error loading zoning layer:'', ''service unavailable'')
       \<in> set (console_error (loadGisLayers_loop failing_service example_box layerTypes
             (gm_ready\<lparr>enabledLayers := [''zoning'']\<rparr>)))" by simp
  from a b c 1 2 3 4 show ?thesis by simp
qed

text \<open>
  The viewport fetch of the GIS layers is not part of the statement above. Its service
  call is awaited in the callback of the timer, outside the \<open>try\<close> of
  \<open>fetchGisData\<close>: a rejection is unhandled, nothing is logged, no message is stored,
  and \<open>gisLoading\<close> stays as it was.
\<close>

lemma viewport_rejection_unhandled:
  "map_of (inflight s) request = Some PLayers \<Longrightarrow>
   unhandled_rejections (pm_step (Settle request (Inl err)) s) = unhandled_rejections s @ [err]
   \<and> gisError (pm_step (Settle request (Inl err)) s) = gisError s
   \<and> gisLoading (pm_step (Settle request (Inl err)) s) = gisLoading s
   \<and> pm_console_error (pm_step (Settle request (Inl err)) s) = pm_console_error s"
  by (simp add: settle_rejection_step)

end
